theory Spec2Isabelle
  imports Complex_Main "HOL-Library.Word"
begin

section \<open>Data model (CompilerInterface.h)\<close>

text \<open>
  \<^verbatim>\<open>DiagnosticMessage::Severity\<close>, \<^verbatim>\<open>DiagnosticMessage\<close>, \<^verbatim>\<open>CompilerOptions\<close> and
  \<^verbatim>\<open>CompilationResult\<close> as the header declares them. The C++ \<^verbatim>\<open>int\<close> fields are
  modelled as \<open>int\<close>; the only arithmetic on them is the increment of the two counters,
  once per drained engine message. \<^verbatim>\<open>file\<close> is a reserved word of the theory language, so
  that field is \<open>file'\<close>. The \<^verbatim>\<open>double\<close> field \<^verbatim>\<open>compilationTimeMs\<close> is a \<open>real\<close>;
  it is only ever stored, divided by 1000 and printed.
\<close>

datatype Severity = Error | Warning | Info

record DiagnosticMessage =
  file' :: string
  line :: int
  column :: int
  message :: string
  procName :: string
  severity :: Severity

text \<open>\<^verbatim>\<open>DiagnosticMessage::getSeverityString\<close>; the \<^verbatim>\<open>default\<close> branch is unreachable.\<close>

definition getSeverityString :: "DiagnosticMessage \<Rightarrow> string" where
  "getSeverityString d =
     (case severity d of Error \<Rightarrow> ''error'' | Warning \<Rightarrow> ''warning'' | Info \<Rightarrow> ''info'')"

record CompilerOptions =
  inputFile :: string
  outputDirectory :: string
  checkSyntaxOnly :: bool
  verboseOutput :: bool
  generateDebugInfo :: bool

record CompilationResult =
  success :: bool
  errorCount :: int
  warningCount :: int
  diagnostics :: "DiagnosticMessage list"
  compiledOutput :: string
  compilationTimeMs :: real

text \<open>The two default constructors.\<close>

definition CompilerOptions_default :: CompilerOptions where
  "CompilerOptions_default =
     \<lparr>inputFile = [], outputDirectory = [], checkSyntaxOnly = False,
      verboseOutput = False, generateDebugInfo = True\<rparr>"

definition CompilationResult_default :: CompilationResult where
  "CompilationResult_default =
     \<lparr>success = False, errorCount = 0, warningCount = 0, diagnostics = [],
      compiledOutput = [], compilationTimeMs = 0\<rparr>"

section \<open>The boundary to the SDK, the C++ library and the operating system\<close>

text \<open>
  A C++ exception in flight: one derived from \<^verbatim>\<open>std::exception\<close>, with its
  \<^verbatim>\<open>what()\<close> text, or anything else.
\<close>

datatype cpp_exception = StdException string | OtherException

text \<open>
  The engine's parser message, with the fields \<^verbatim>\<open>compile\<close> reads. The three
  name fields are wide strings; a wide character is its code unit.
\<close>

datatype ParserMessageType = PM_Error | PM_Warning | PM_DeprecationMajor | PM_DeprecationMinor

type_synonym wstring = "nat list"

record ParserMessage =
  line_number :: nat
  position_in_line :: nat
  what :: string
  message_text :: wstring
  proc_name :: wstring
  compilation_unit_name :: wstring
  type :: ParserMessageType

text \<open>
  Everything the program calls and does not define is a parameter: the build
  configuration, the \<^verbatim>\<open>std::filesystem\<close> path algebra, the clock, and the outcome of
  each SDK call of one run (\<open>None\<close>: the call returns; \<open>Some x\<close>: it throws \<open>x\<close>).
\<close>

record environment =
  CSPRO_SDK_AVAILABLE :: bool
  DATE :: string
  TIME :: string
  indeterminate_line :: int
  indeterminate_column :: int
  elapsed_ms :: real
  show_double :: "real \<Rightarrow> string"
  is_relative :: "string \<Rightarrow> bool"
  path_append :: "string \<Rightarrow> string \<Rightarrow> string"
  canonical :: "string \<Rightarrow> cpp_exception + string"
  filename :: "string \<Rightarrow> string"
  remove_filename :: "string \<Rightarrow> string"
  parent_path :: "string \<Rightarrow> string"
  extension :: "string \<Rightarrow> string"
  replace_extension :: "string \<Rightarrow> string \<Rightarrow> string"
  exists_file :: "string \<Rightarrow> cpp_exception + bool"
  get_current_path :: "cpp_exception option"
  set_current_path :: "string \<Rightarrow> cpp_exception option"
  openable :: "string \<Rightarrow> bool"
  AfxGetApp :: bool
  AfxWinInit :: "cpp_exception option"
  LoadMessages :: "cpp_exception option"
  new_Application :: "cpp_exception option"
  SetCompiledLogicVersion :: "cpp_exception option"
  Open :: "cpp_exception option"
  SetLogicSettings :: "cpp_exception option"
  BuildApplication :: "cpp_exception option"
  Load :: "cpp_exception + bool"
  new_CCompiler :: "cpp_exception option"
  FullCompile :: "cpp_exception option"
  GetParserMessages :: "cpp_exception + ParserMessage list"

text \<open>
  The process state the program acts on: the working directory, the calls made to
  process-wide facilities (in order), the files written, every attempt to open a file
  for writing, and the two standard streams.
\<close>

datatype process_call = Call_setlocale | Call_setmbcp | Call_AfxWinInit | Call_LoadMessages

record world =
  cwd :: string
  calls :: "process_call list"
  files :: "string \<rightharpoonup> string"
  open_attempts :: "string list"
  cout :: string
  cerr :: string

section \<open>The engine adapter (CompilerInterface.cpp)\<close>

record CSProEngineImpl =
  m_initialized :: bool
  m_application :: bool
  m_compiler :: bool

definition createCompilerEngine :: CSProEngineImpl where
  "createCompilerEngine = \<lparr>m_initialized = False, m_application = False, m_compiler = False\<rparr>"

text \<open>
  \<^verbatim>\<open>initialize\<close>: the locale and the code page are set before the test of
  \<^verbatim>\<open>m_initialized\<close>. With the SDK, \<^verbatim>\<open>AfxWinInit\<close> runs when there is no application
  object; a throw there is caught and gives \<^verbatim>\<open>false\<close>. A throw of
  \<^verbatim>\<open>LoadMessages\<close> is swallowed by the inner handler. Without the SDK the result is
  \<^verbatim>\<open>false\<close>.
\<close>

definition initialize ::
  "environment \<Rightarrow> CSProEngineImpl \<Rightarrow> world \<Rightarrow> bool \<times> CSProEngineImpl \<times> world" where
  "initialize env e w =
     (let w1 = w\<lparr>calls := calls w @ [Call_setlocale, Call_setmbcp]\<rparr> in
      if m_initialized e then (True, e, w1)
      else if CSPRO_SDK_AVAILABLE env then
        (if AfxGetApp env then
           (True, e\<lparr>m_initialized := True\<rparr>, w1\<lparr>calls := calls w1 @ [Call_LoadMessages]\<rparr>)
         else
           (let w2 = w1\<lparr>calls := calls w1 @ [Call_AfxWinInit]\<rparr> in
            case AfxWinInit env of
              Some x \<Rightarrow> (False, e, w2)
            | None \<Rightarrow>
                (True, e\<lparr>m_initialized := True\<rparr>, w2\<lparr>calls := calls w2 @ [Call_LoadMessages]\<rparr>)))
      else (False, e, w1))"

definition shutdown :: "CSProEngineImpl \<Rightarrow> CSProEngineImpl" where
  "shutdown e = e\<lparr>m_compiler := False, m_application := False, m_initialized := False\<rparr>"

text \<open>
  The conversions of \<^verbatim>\<open>compile\<close>: a wide string narrowed character by character
  (\<^verbatim>\<open>std::string(w.begin(), w.end())\<close> keeps the low byte), and
  \<^verbatim>\<open>static_cast<int>\<close> of an unsigned position (32-bit two's complement).
\<close>

definition narrow :: "wstring \<Rightarrow> string" where
  "narrow ws = map char_of ws"

definition static_cast_int :: "nat \<Rightarrow> int" where
  "static_cast_int n = sint (word_of_nat n :: 32 word)"

text \<open>One iteration of the loop over the engine's messages.\<close>

definition translate_message ::
  "CompilerOptions \<Rightarrow> ParserMessage \<Rightarrow> CompilationResult \<Rightarrow> CompilationResult" where
  "translate_message options parserMsg result =
     (let formatted =
            (if what parserMsg = ''Logic - Parser Message'' \<and> message_text parserMsg \<noteq> []
             then narrow (message_text parserMsg) else what parserMsg);
          proc =
            (if proc_name parserMsg \<noteq> [] then narrow (proc_name parserMsg)
             else if compilation_unit_name parserMsg \<noteq> []
             then narrow (compilation_unit_name parserMsg) else []);
          sev = (case type parserMsg of PM_Error \<Rightarrow> Error | _ \<Rightarrow> Warning);
          counted =
            (case type parserMsg of
               PM_Error \<Rightarrow> result\<lparr>errorCount := errorCount result + 1\<rparr>
             | _ \<Rightarrow> result\<lparr>warningCount := warningCount result + 1\<rparr>);
          msg = \<lparr>file' =
                   (if compilation_unit_name parserMsg \<noteq> []
                    then narrow (compilation_unit_name parserMsg) else inputFile options),
                 line = static_cast_int (line_number parserMsg),
                 column = static_cast_int (position_in_line parserMsg),
                 message = formatted, procName = proc, severity = sev\<rparr>
      in counted\<lparr>diagnostics := diagnostics counted @ [msg]\<rparr>)"

fun drain_messages ::
  "CompilerOptions \<Rightarrow> ParserMessage list \<Rightarrow> CompilationResult \<Rightarrow> CompilationResult" where
  "drain_messages options [] result = result"
| "drain_messages options (parserMsg # rest) result =
     drain_messages options rest (translate_message options parserMsg result)"

text \<open>
  How a block of \<^verbatim>\<open>compile\<close> ends: it runs to its end, it executes
  \<^verbatim>\<open>return result\<close>, or an exception leaves it.
\<close>

datatype completion = FellThrough | Returned | Threw cpp_exception

text \<open>
  The \<^verbatim>\<open>try\<close> block of \<^verbatim>\<open>compile\<close>, statement by statement. The engine object,
  the process state and the local \<^verbatim>\<open>result\<close> are returned as they are when the block
  is left, whichever way it is left.
\<close>

definition compile_try ::
  "environment \<Rightarrow> CompilerOptions \<Rightarrow> CSProEngineImpl \<Rightarrow> world \<Rightarrow> CompilationResult
     \<Rightarrow> completion \<times> CSProEngineImpl \<times> world \<times> CompilationResult" where
  "compile_try env options e w result =
     (case new_Application env of Some x \<Rightarrow> (Threw x, e, w, result) | None \<Rightarrow>
      (let e1 = e\<lparr>m_application := True\<rparr> in
       case SetCompiledLogicVersion env of Some x \<Rightarrow> (Threw x, e1, w, result) | None \<Rightarrow>
       (case get_current_path env of Some x \<Rightarrow> (Threw x, e1, w, result) | None \<Rightarrow>
        (let originalCwd = cwd w;
             appDir0 = (if is_relative env (inputFile options)
                        then path_append env originalCwd (inputFile options)
                        else inputFile options) in
         case canonical env appDir0 of Inl x \<Rightarrow> (Threw x, e1, w, result) | Inr appPath \<Rightarrow>
         (let appFileName = filename env appPath;
              appDir = remove_filename env appPath in
          case set_current_path env appDir of Some x \<Rightarrow> (Threw x, e1, w, result) | None \<Rightarrow>
          (let w1 = w\<lparr>cwd := appDir\<rparr> in
           case Open env of Some x \<Rightarrow> (Threw x, e1, w1, result) | None \<Rightarrow>
           (case SetLogicSettings env of Some x \<Rightarrow> (Threw x, e1, w1, result) | None \<Rightarrow>
            (case set_current_path env originalCwd of Some x \<Rightarrow> (Threw x, e1, w1, result) | None \<Rightarrow>
             (let w2 = w1\<lparr>cwd := originalCwd\<rparr> in
              case BuildApplication env of Some x \<Rightarrow> (Threw x, e1, w2, result) | None \<Rightarrow>
              (case Load env of Inl x \<Rightarrow> (Threw x, e1, w2, result)
               | Inr False \<Rightarrow>
                   (Returned, e1, w2,
                    result\<lparr>diagnostics := diagnostics result @
                              [\<lparr>file' = inputFile options, line = 0, column = 0,
                                message = ''Failed to load application source code'',
                                procName = [], severity = Error\<rparr>],
                            success := False\<rparr>)
               | Inr True \<Rightarrow>
                (case new_CCompiler env of Some x \<Rightarrow> (Threw x, e1, w2, result) | None \<Rightarrow>
                 (let e2 = e1\<lparr>m_compiler := True\<rparr> in
                  case FullCompile env of Some x \<Rightarrow> (Threw x, e2, w2, result) | None \<Rightarrow>
                  (case GetParserMessages env of Inl x \<Rightarrow> (Threw x, e2, w2, result)
                   | Inr allMessages \<Rightarrow>
                     (let r1 = drain_messages options allMessages result in
                      if errorCount r1 = 0
                      then (FellThrough, e2, w2,
                            r1\<lparr>success := True,
                               compiledOutput := replace_extension env (inputFile options) ''.pen''\<rparr>)
                      else (FellThrough, e2, w2, r1\<lparr>success := False\<rparr>)))))))))))))))"

text \<open>The two handlers of the \<^verbatim>\<open>try\<close> block.\<close>

definition compile_catch :: "CompilerOptions \<Rightarrow> cpp_exception \<Rightarrow> CompilationResult \<Rightarrow> CompilationResult" where
  "compile_catch options x result =
     (case x of
        StdException w \<Rightarrow>
          result\<lparr>diagnostics := diagnostics result @
                    [\<lparr>file' = inputFile options, line = 0, column = 0,
                      message = ''Exception: '' @ w, procName = [], severity = Error\<rparr>],
                  success := False\<rparr>
      | OtherException \<Rightarrow>
          result\<lparr>diagnostics := diagnostics result @
                    [\<lparr>file' = inputFile options, line = 0, column = 0,
                      message = ''Unknown exception during compilation'',
                      procName = [], severity = Error\<rparr>],
                  success := False\<rparr>)"

text \<open>
  \<^verbatim>\<open>compile\<close>. The outcome is \<open>Inr\<close> of the returned result, or \<open>Inl\<close> of an
  exception that leaves the function. The early \<^verbatim>\<open>return\<close>s (failed initialisation,
  failed \<^verbatim>\<open>Load\<close>) skip the timing at the end. Without the SDK the body after the
  initialisation is \<^verbatim>\<open>result.success = false\<close>.
\<close>

definition compile ::
  "environment \<Rightarrow> CompilerOptions \<Rightarrow> CSProEngineImpl \<Rightarrow> world
     \<Rightarrow> (cpp_exception + CompilationResult) \<times> CSProEngineImpl \<times> world" where
  "compile env options e w =
     (let result = CompilationResult_default;
          (ok, e0, w0) = (if m_initialized e then (True, e, w) else initialize env e w) in
      if \<not> ok then
        (Inr (result\<lparr>success := False,
                     diagnostics := diagnostics result @
                       [\<lparr>file' = [], line = 0, column = 0,
                         message = ''Failed to initialize CSPro engine'',
                         procName = [], severity = Error\<rparr>]\<rparr>), e0, w0)
      else if CSPRO_SDK_AVAILABLE env then
        (case compile_try env options e0 w0 result of
           (Returned, e1, w1, r1) \<Rightarrow> (Inr r1, e1, w1)
         | (FellThrough, e1, w1, r1) \<Rightarrow>
             (Inr (r1\<lparr>compilationTimeMs := elapsed_ms env\<rparr>), e1, w1)
         | (Threw x, e1, w1, r1) \<Rightarrow>
             (Inr ((compile_catch options x r1)\<lparr>compilationTimeMs := elapsed_ms env\<rparr>), e1, w1))
      else (Inr (result\<lparr>success := False, compilationTimeMs := elapsed_ms env\<rparr>), e0, w0))"


section \<open>The command-line driver (CSProCompile.cpp)\<close>

text \<open>
  What \<^verbatim>\<open>operator<<\<close> prints for an \<^verbatim>\<open>int\<close>: the decimal digits, with a minus
  sign for a negative number.
\<close>

definition digit_char :: "nat \<Rightarrow> char" where
  "digit_char d = ''0123456789'' ! d"

function show_nat :: "nat \<Rightarrow> string" where
  "show_nat n = (if n < 10 then [digit_char n] else show_nat (n div 10) @ [digit_char (n mod 10)])"
  by pat_completeness auto
termination
  by (relation "measure id") auto

declare show_nat.simps [simp del]

definition show_int :: "int \<Rightarrow> string" where
  "show_int i = (if i < 0 then CHR ''-'' # show_nat (nat (- i)) else show_nat (nat i))"

record CSProCommandLineCompiler =
  CLC_inputFile :: string
  outputFile :: string
  verboseMode :: bool
  checkOnly :: bool
  jsonOutput :: bool

definition CSProCommandLineCompiler_new :: CSProCommandLineCompiler where
  "CSProCommandLineCompiler_new =
     \<lparr>CLC_inputFile = [], outputFile = [], verboseMode = False, checkOnly = False,
      jsonOutput = False\<rparr>"

text \<open>
  The operating system resolves a relative path against the working directory of the
  process at the moment of the call.
\<close>

definition resolve_path :: "environment \<Rightarrow> world \<Rightarrow> string \<Rightarrow> string" where
  "resolve_path env w p = (if is_relative env p then path_append env (cwd w) p else p)"

text \<open>
  \<^verbatim>\<open>validateInputFile\<close>. \<^verbatim>\<open>std::filesystem::exists\<close> can throw; the exception
  leaves the function.
\<close>

definition validateInputFile ::
  "environment \<Rightarrow> CSProCommandLineCompiler \<Rightarrow> world \<Rightarrow> (cpp_exception + bool) \<times> world" where
  "validateInputFile env c w =
     (case exists_file env (resolve_path env w (CLC_inputFile c)) of
        Inl x \<Rightarrow> (Inl x, w)
      | Inr False \<Rightarrow>
          (Inr False,
           w\<lparr>cerr := cerr w @ ''Error: Input file not found: '' @ CLC_inputFile c @ [CHR 0x0A]\<rparr>)
      | Inr True \<Rightarrow>
          (let ext = extension env (CLC_inputFile c) in
           if ext \<noteq> ''.ent'' \<and> ext \<noteq> ''.bch'' \<and> ext \<noteq> ''.pff'' then
             (Inr False, w\<lparr>cerr := cerr w @
                ''Error: Invalid file type. Expected .ent, .bch, or .pff'' @ [CHR 0x0A]\<rparr>)
           else (Inr True, w)))"

text \<open>
  An \<^verbatim>\<open>std::ofstream\<close> opened on a path, written and closed. The file that is
  opened is the path resolved against the working directory at that moment; the attempt
  is recorded under the resolved path; the text replaces the file's content when the
  file can be opened and is dropped otherwise. \<open>is_open\<close> is what the stream answers
  after the attempt.
\<close>

definition is_open :: "environment \<Rightarrow> world \<Rightarrow> string \<Rightarrow> bool" where
  "is_open env w path = openable env (resolve_path env w path)"

definition write_file :: "environment \<Rightarrow> string \<Rightarrow> string \<Rightarrow> world \<Rightarrow> world" where
  "write_file env path text w =
     (let target = resolve_path env w path;
          w1 = w\<lparr>open_attempts := open_attempts w @ [target]\<rparr> in
      if openable env target then w1\<lparr>files := (files w1)(target \<mapsto> text)\<rparr> else w1)"

text \<open>The body of the loop of the detailed log, and the loop.\<close>

definition detailed_record :: "DiagnosticMessage \<Rightarrow> string \<Rightarrow> string" where
  "detailed_record diag errorFile =
     (let severity_text = (if severity diag = Error then ''ERROR'' else ''WARNING'') in
      errorFile @ severity_text @ '' at line '' @ show_int (line diag) @ '', column '' @
        show_int (column diag) @ '':'' @ [CHR 0x0A] @
        ''  '' @ message diag @ [CHR 0x0A] @
        ''  Location: '' @ file' diag @ [CHR 0x0A] @
        [CHR 0x0A])"

fun detailed_records :: "DiagnosticMessage list \<Rightarrow> string \<Rightarrow> string" where
  "detailed_records [] errorFile = errorFile"
| "detailed_records (diag # rest) errorFile = detailed_records rest (detailed_record diag errorFile)"

definition detailed_log :: "environment \<Rightarrow> string \<Rightarrow> CompilationResult \<Rightarrow> string" where
  "detailed_log env input result =
     detailed_records (diagnostics result)
       (''CSPro Compilation Errors/Warnings'' @ [CHR 0x0A] @
        ''=================================='' @ [CHR 0x0A] @
        ''File: '' @ input @ [CHR 0x0A] @
        ''Date: '' @ DATE env @ '' '' @ TIME env @ [CHR 0x0A] @
        ''Total Errors: '' @ show_int (errorCount result) @ [CHR 0x0A] @
        ''Total Warnings: '' @ show_int (warningCount result) @ [CHR 0x0A] @
        [CHR 0x0A])"

text \<open>The body of the loop of the Designer-compatible log, and the loop.\<close>

definition formatted_record :: "DiagnosticMessage \<Rightarrow> string \<Rightarrow> string" where
  "formatted_record diag formattedFile =
     (let severity_text = (if severity diag = Error then ''ERROR'' else ''WARNING'') in
      if procName diag \<noteq> [] \<and> line diag > 0 then
        formattedFile @ severity_text @ ''('' @ procName diag @ '', '' @ show_int (line diag) @
          ''): '' @ message diag @ [CHR 0x0A]
      else if procName diag \<noteq> [] then
        formattedFile @ severity_text @ ''('' @ procName diag @ ''): '' @ message diag @ [CHR 0x0A]
      else if line diag > 0 then
        formattedFile @ severity_text @ ''('' @ show_int (line diag) @ ''): '' @ message diag @
          [CHR 0x0A]
      else
        formattedFile @ severity_text @ '': '' @ message diag @ [CHR 0x0A])"

fun formatted_records :: "DiagnosticMessage list \<Rightarrow> string \<Rightarrow> string" where
  "formatted_records [] formattedFile = formattedFile"
| "formatted_records (diag # rest) formattedFile =
     formatted_records rest (formatted_record diag formattedFile)"

definition formatted_log :: "CompilationResult \<Rightarrow> string" where
  "formatted_log result = formatted_records (diagnostics result) []"

text \<open>
  The two blocks of \<^verbatim>\<open>CSProCommandLineCompiler::compile\<close> around the engine: the
  verbose header, and the block that saves the diagnostics to \<^verbatim>\<open>compileErrors.txt\<close>
  and \<^verbatim>\<open>compileErrorsFormatted.txt\<close> beside the input file. Each stream is written
  only when it is open; the path is reported in verbose mode.
\<close>

definition announce :: "CSProCommandLineCompiler \<Rightarrow> world \<Rightarrow> world" where
  "announce c w =
     (if verboseMode c then
        (let w1 = w\<lparr>cout := cout w @ ''Compiling: '' @ CLC_inputFile c @ [CHR 0x0A]\<rparr> in
         if checkOnly c
         then w1\<lparr>cout := cout w1 @ ''Mode: Syntax check only'' @ [CHR 0x0A]\<rparr> else w1)
      else w)"

definition save_errors ::
  "environment \<Rightarrow> CSProCommandLineCompiler \<Rightarrow> CompilationResult \<Rightarrow> world \<Rightarrow> world" where
  "save_errors env c result w =
     (if diagnostics result \<noteq> [] then
        (let errorFilePath =
               path_append env (parent_path env (CLC_inputFile c)) ''compileErrors.txt'';
             formattedFilePath =
               path_append env (parent_path env (CLC_inputFile c)) ''compileErrorsFormatted.txt'';
             w1 = write_file env errorFilePath (detailed_log env (CLC_inputFile c) result) w;
             w2 = (if is_open env w errorFilePath \<and> verboseMode c
                   then w1\<lparr>cout := cout w1 @ ''Errors/warnings saved to: '' @ errorFilePath @
                                        [CHR 0x0A]\<rparr>
                   else w1);
             w3 = write_file env formattedFilePath (formatted_log result) w2
         in if is_open env w2 formattedFilePath \<and> verboseMode c
            then w3\<lparr>cout := cout w3 @ ''Formatted errors saved to: '' @ formattedFilePath @
                                 [CHR 0x0A]\<rparr>
            else w3)
      else w)"

text \<open>
  \<^verbatim>\<open>CSProCommandLineCompiler::compile\<close>. A fresh engine is created and initialised;
  when that fails the function returns its own one-diagnostic result at once. The
  \<^verbatim>\<open>line\<close> and \<^verbatim>\<open>column\<close> of that diagnostic are never assigned. Otherwise the
  engine compiles and is shut down, and the diagnostics are saved. The engine object
  is local to the function and is destroyed when it returns.
\<close>

definition CSProCommandLineCompiler_compile ::
  "environment \<Rightarrow> CSProCommandLineCompiler \<Rightarrow> world \<Rightarrow> (cpp_exception + CompilationResult) \<times> world" where
  "CSProCommandLineCompiler_compile env c w =
     (case initialize env createCompilerEngine (announce c w) of
        (False, engine, w1) \<Rightarrow>
          (Inr (CompilationResult_default
                 \<lparr>success := False, compilationTimeMs := 0,
                  diagnostics := [\<lparr>file' = [], line = indeterminate_line env,
                                   column = indeterminate_column env,
                                   message = ''Failed to initialize CSPro compiler'',
                                   procName = [], severity = Error\<rparr>],
                  errorCount := 1\<rparr>), w1)
      | (True, engine, w1) \<Rightarrow>
          (case compile env
                  (CompilerOptions_default
                     \<lparr>inputFile := CLC_inputFile c, verboseOutput := verboseMode c,
                      checkSyntaxOnly := checkOnly c\<rparr>) engine w1 of
             (Inl x, engine1, w2) \<Rightarrow> (Inl x, w2)
           | (Inr result, engine1, w2) \<Rightarrow>
               (let engine2 = shutdown engine1 in (Inr result, save_errors env c result w2))))"

text \<open>
  \<^verbatim>\<open>outputJson\<close>: the loop runs over the indices of \<^verbatim>\<open>diagnostics\<close> and puts a
  comma after every entry but the last. Strings are printed as they are, between
  double quotes.
\<close>

definition json_entry :: "DiagnosticMessage list \<Rightarrow> nat \<Rightarrow> string \<Rightarrow> string" where
  "json_entry ds i out =
     (let diag = ds ! i;
          severity_text = (if severity diag = Error then ''error'' else ''warning'') in
      out @ ''    {'' @ [CHR 0x0A] @
        ''      \"file\": \"'' @ file' diag @ ''\",'' @ [CHR 0x0A] @
        ''      \"line\": '' @ show_int (line diag) @ '','' @ [CHR 0x0A] @
        ''      \"column\": '' @ show_int (column diag) @ '','' @ [CHR 0x0A] @
        ''      \"message\": \"'' @ message diag @ ''\",'' @ [CHR 0x0A] @
        ''      \"severity\": \"'' @ severity_text @ ''\"'' @ [CHR 0x0A] @
        ''    }'' @ (if i < length ds - 1 then '','' else []) @ [CHR 0x0A])"

function json_entries :: "DiagnosticMessage list \<Rightarrow> nat \<Rightarrow> string \<Rightarrow> string" where
  "json_entries ds i out =
     (if i < length ds then json_entries ds (Suc i) (json_entry ds i out) else out)"
  by pat_completeness auto
termination
  by (relation "measure (\<lambda>(ds, i, out). length ds - i)") auto

declare json_entries.simps [simp del]

definition json_text :: "environment \<Rightarrow> CompilationResult \<Rightarrow> string" where
  "json_text env result =
     json_entries (diagnostics result) 0
       (''{'' @ [CHR 0x0A] @
        ''  \"success\": '' @ (if success result then ''true'' else ''false'') @ '','' @ [CHR 0x0A] @
        ''  \"compilationTime\": '' @ show_double env (compilationTimeMs result / 1000) @ '','' @
          [CHR 0x0A] @
        ''  \"errors\": ['' @ [CHR 0x0A])
     @ ''  ]'' @ [CHR 0x0A] @ ''}'' @ [CHR 0x0A]"

definition outputJson ::
  "environment \<Rightarrow> CSProCommandLineCompiler \<Rightarrow> CompilationResult \<Rightarrow> world \<Rightarrow> world" where
  "outputJson env c result w =
     (if outputFile c \<noteq> [] then write_file env (outputFile c) (json_text env result) w
      else w\<lparr>cout := cout w @ json_text env result\<rparr>)"


text \<open>
  The text of one entry without what follows its closing brace, and the entries of a
  list with their separators: the loop of \<^verbatim>\<open>outputJson\<close> seen from the list
  (\<open>json_entries_eq\<close> below).
\<close>

definition entry_text :: "DiagnosticMessage \<Rightarrow> string" where
  "entry_text diag =
     ''    {'' @ [CHR 0x0A] @
     ''      \"file\": \"'' @ file' diag @ ''\",'' @ [CHR 0x0A] @
     ''      \"line\": '' @ show_int (line diag) @ '','' @ [CHR 0x0A] @
     ''      \"column\": '' @ show_int (column diag) @ '','' @ [CHR 0x0A] @
     ''      \"message\": \"'' @ message diag @ ''\",'' @ [CHR 0x0A] @
     ''      \"severity\": \"'' @ (if severity diag = Error then ''error'' else ''warning'') @
       ''\"'' @ [CHR 0x0A] @
     ''    }''"

fun entries_text :: "DiagnosticMessage list \<Rightarrow> string" where
  "entries_text [] = []"
| "entries_text [diag] = entry_text diag @ [CHR 0x0A]"
| "entries_text (diag # rest) = entry_text diag @ '','' @ [CHR 0x0A] @ entries_text rest"

definition outputText_record :: "DiagnosticMessage \<Rightarrow> string \<Rightarrow> string" where
  "outputText_record diag err =
     (let severity_text = (if severity diag = Error then ''error'' else ''warning'') in
      err @ file' diag @ ''('' @ show_int (line diag) @ '','' @ show_int (column diag) @ ''): '' @
        severity_text @ '': '' @ message diag @ [CHR 0x0A])"

fun outputText_records :: "DiagnosticMessage list \<Rightarrow> string \<Rightarrow> string" where
  "outputText_records [] err = err"
| "outputText_records (diag # rest) err = outputText_records rest (outputText_record diag err)"

definition outputText ::
  "environment \<Rightarrow> CSProCommandLineCompiler \<Rightarrow> CompilationResult \<Rightarrow> world \<Rightarrow> world" where
  "outputText env c result w =
     (if success result then
        (let w1 = w\<lparr>cout := cout w @ ''Compilation successful!'' @ [CHR 0x0A]\<rparr> in
         if verboseMode c then
           w1\<lparr>cout := cout w1 @ ''Compilation time: '' @
                   show_double env (compilationTimeMs result / 1000) @ '' seconds'' @ [CHR 0x0A]\<rparr>
         else w1)
      else
        (let head = ''Compilation failed with '' @ show_int (errorCount result) @ '' error(s)'' @
                    (if warningCount result > 0
                     then '' and '' @ show_int (warningCount result) @ '' warning(s)'' else []) @
                    '':'' @ [CHR 0x0A]
         in w\<lparr>cerr := outputText_records (diagnostics result) (cerr w @ head)\<rparr>))"

definition outputResults ::
  "environment \<Rightarrow> CSProCommandLineCompiler \<Rightarrow> CompilationResult \<Rightarrow> world \<Rightarrow> world" where
  "outputResults env c result w =
     (if jsonOutput c then outputJson env c result w else outputText env c result w)"

definition usage_text :: "string \<Rightarrow> string" where
  "usage_text programName =
     ''CSProCompile - Command-line CSPro Application Compiler'' @ [CHR 0x0A, CHR 0x0A] @
     ''Usage:'' @ [CHR 0x0A] @
     ''  '' @ programName @ '' <application.ent|.bch|.pff> [options]'' @ [CHR 0x0A, CHR 0x0A] @
     ''Options:'' @ [CHR 0x0A] @
     ''  -o <file>     Output compilation results to JSON file'' @ [CHR 0x0A] @
     ''  -v            Verbose mode'' @ [CHR 0x0A] @
     ''  --check-only  Only check syntax, don't generate binaries'' @ [CHR 0x0A] @
     ''  --json        Output errors in JSON format (for VS Code)'' @ [CHR 0x0A] @
     ''  -h, --help    Show this help message'' @ [CHR 0x0A, CHR 0x0A] @
     ''Examples:'' @ [CHR 0x0A] @
     ''  '' @ programName @ '' myapp.ent'' @ [CHR 0x0A] @
     ''  '' @ programName @ '' myapp.bch -v --json'' @ [CHR 0x0A] @
     ''  '' @ programName @ '' myapp.pff -o results.json'' @ [CHR 0x0A]"

definition printUsage :: "string \<Rightarrow> world \<Rightarrow> world" where
  "printUsage programName w = w\<lparr>cout := cout w @ usage_text programName\<rparr>"

text \<open>
  The argument loop of \<^verbatim>\<open>main\<close>, over the arguments that remain. \<open>Inl\<close> is a
  \<^verbatim>\<open>return\<close> inside the loop, with the exit code; \<open>Inr\<close> is the compiler object
  when the loop ends. \<^verbatim>\<open>-o\<close> takes the next argument, whatever it is.
  \<^verbatim>\<open>arg[0]\<close> of an empty argument is the terminating null character.
\<close>

definition first_char :: "string \<Rightarrow> char" where
  "first_char arg = (case arg of [] \<Rightarrow> CHR 0x00 | ch # _ \<Rightarrow> ch)"

fun parse_arguments ::
  "string \<Rightarrow> string list \<Rightarrow> CSProCommandLineCompiler \<Rightarrow> world
     \<Rightarrow> (int \<times> world) + CSProCommandLineCompiler" where
  "parse_arguments programName [] compiler w = Inr compiler"
| "parse_arguments programName (arg # rest) compiler w =
     (if arg = ''-h'' \<or> arg = ''--help'' then Inl (0, printUsage programName w)
      else if arg = ''-v'' then
        parse_arguments programName rest (compiler\<lparr>verboseMode := True\<rparr>) w
      else if arg = ''--check-only'' then
        parse_arguments programName rest (compiler\<lparr>checkOnly := True\<rparr>) w
      else if arg = ''--json'' then
        parse_arguments programName rest (compiler\<lparr>jsonOutput := True\<rparr>) w
      else if arg = ''-o'' then
        (case rest of
           [] \<Rightarrow> Inl (1, w\<lparr>cerr := cerr w @ ''Error: -o requires an output filename'' @ [CHR 0x0A]\<rparr>)
         | file # rest1 \<Rightarrow> parse_arguments programName rest1 (compiler\<lparr>outputFile := file\<rparr>) w)
      else if first_char arg \<noteq> CHR ''-'' then
        parse_arguments programName rest (compiler\<lparr>CLC_inputFile := arg\<rparr>) w
      else
        Inl (1, printUsage programName
                  (w\<lparr>cerr := cerr w @ ''Unknown option: '' @ arg @ [CHR 0x0A]\<rparr>)))"

text \<open>
  \<^verbatim>\<open>main\<close>, on the program name and the arguments after it. An exception that
  reaches the two handlers of \<^verbatim>\<open>main\<close> is reported on the error stream with exit
  code 1.
\<close>

definition main_catch :: "cpp_exception \<Rightarrow> world \<Rightarrow> int \<times> world" where
  "main_catch x w =
     (case x of
        StdException what_text \<Rightarrow>
          (1, w\<lparr>cerr := cerr w @ ''Error: '' @ what_text @ [CHR 0x0A]\<rparr>)
      | OtherException \<Rightarrow>
          (1, w\<lparr>cerr := cerr w @ ''Error: Unknown exception occurred'' @ [CHR 0x0A]\<rparr>))"

definition main :: "environment \<Rightarrow> string \<Rightarrow> string list \<Rightarrow> world \<Rightarrow> int \<times> world" where
  "main env programName args w =
     (if args = [] then (1, printUsage programName w)
      else
        (case parse_arguments programName args CSProCommandLineCompiler_new w of
           Inl exit \<Rightarrow> exit
         | Inr compiler \<Rightarrow>
             (case validateInputFile env compiler w of
                (Inl x, w1) \<Rightarrow> main_catch x w1
              | (Inr False, w1) \<Rightarrow> (1, w1)
              | (Inr True, w1) \<Rightarrow>
                  (case CSProCommandLineCompiler_compile env compiler w1 of
                     (Inr result, w2) \<Rightarrow>
                       (if success result then 0 else 1, outputResults env compiler result w2)
                   | (Inl x, w2) \<Rightarrow> main_catch x w2))))"


section \<open>Vocabulary of the specification\<close>

text \<open>
  The number of entries of a diagnostics sequence with a given severity, as the
  specification counts them.
\<close>

definition count_severity :: "Severity \<Rightarrow> DiagnosticMessage list \<Rightarrow> int" where
  "count_severity s ds = int (length (filter (\<lambda>d. severity d = s) ds))"

text \<open>
  The synthetic diagnostic the specification asks for when a failure is caught: an
  \<open>Error\<close> at the input file, with no position, carrying the description of the failure.
\<close>

definition failure_diagnostic :: "CompilerOptions \<Rightarrow> cpp_exception \<Rightarrow> DiagnosticMessage" where
  "failure_diagnostic options x =
     \<lparr>file' = inputFile options, line = 0, column = 0,
      message = (case x of StdException w \<Rightarrow> ''Exception: '' @ w
                 | OtherException \<Rightarrow> ''Unknown exception during compilation''),
      procName = [], severity = Error\<rparr>"


text \<open>
  One line of the editor-compatible log as the specification describes it: the
  upper-case severity, then the context in parentheses (the procedure name when there
  is one, the line when it is known, both separated by a comma and a blank), a colon, a
  blank and the message.
\<close>

definition editor_compatible_line :: "DiagnosticMessage \<Rightarrow> string" where
  "editor_compatible_line d =
     (let SEVERITY = (if severity d = Error then ''ERROR'' else ''WARNING'') in
      if procName d \<noteq> [] then
        (if line d > 0
         then SEVERITY @ ''('' @ procName d @ '', '' @ show_int (line d) @ ''): '' @ message d
         else SEVERITY @ ''('' @ procName d @ ''): '' @ message d)
      else
        (if line d > 0
         then SEVERITY @ ''('' @ show_int (line d) @ ''): '' @ message d
         else SEVERITY @ '': '' @ message d))"

text \<open>
  The two fixed destinations of the persisted logs, in the directory of the input file.
\<close>

definition detailed_log_path :: "environment \<Rightarrow> CSProCommandLineCompiler \<Rightarrow> string" where
  "detailed_log_path env c =
     path_append env (parent_path env (CLC_inputFile c)) ''compileErrors.txt''"

definition editor_log_path :: "environment \<Rightarrow> CSProCommandLineCompiler \<Rightarrow> string" where
  "editor_log_path env c =
     path_append env (parent_path env (CLC_inputFile c)) ''compileErrorsFormatted.txt''"


definition unrecognized_flag :: "string \<Rightarrow> bool" where
  "unrecognized_flag arg =
     (first_char arg = CHR ''-'' \<and>
      arg \<notin> {''-h'', ''--help'', ''-v'', ''--check-only'', ''--json'', ''-o''})"

section \<open>JSON text, as a reader parses it\<close>

text \<open>
  The claim about the JSON renderer speaks of parsing the emitted text as JSON. This
  section is that reader: JSON values, and a parser of JSON text.
\<close>

datatype json =
  JNull | JBool bool | JNumber string | JString string
| JArray "json list" | JObject "(string \<times> json) list"

text \<open>
  The grammar of RFC 8259. Insignificant white space is blank, line feed, carriage
  return and tab.
\<close>

definition is_ws :: "char \<Rightarrow> bool" where
  "is_ws c = (c = CHR '' '' \<or> c = CHR 0x0A \<or> c = CHR 0x0D \<or> c = CHR 0x09)"

definition skip_ws :: "string \<Rightarrow> string" where
  "skip_ws s = dropWhile is_ws s"

definition is_digit :: "char \<Rightarrow> bool" where
  "is_digit c = (c \<in> set ''0123456789'')"

text \<open>
  A string, after its opening quote: up to the closing quote, with the escapes
  resolved (a \<^verbatim>\<open>\u\<close> escape to the UTF-8 bytes of its code unit); an unescaped control
  character is an error, and so is a byte sequence that is not UTF-8.
\<close>

definition hex_value :: "char \<Rightarrow> nat option" where
  "hex_value c =
     (if c \<in> set ''0123456789'' then Some (of_char c - 48)
      else if c \<in> set ''abcdef'' then Some (of_char c - 87)
      else if c \<in> set ''ABCDEF'' then Some (of_char c - 55)
      else None)"

definition utf8 :: "nat \<Rightarrow> string" where
  "utf8 n =
     (if n < 128 then [char_of n]
      else if n < 2048 then [char_of (192 + n div 64), char_of (128 + n mod 64)]
      else [char_of (224 + n div 4096), char_of (128 + n div 64 mod 64), char_of (128 + n mod 64)])"

definition unescape :: "char \<Rightarrow> char option" where
  "unescape e =
     (if e = CHR 0x22 \<or> e = CHR 0x5C \<or> e = CHR ''/'' then Some e
      else if e = CHR ''b'' then Some (CHR 0x08)
      else if e = CHR ''f'' then Some (CHR 0x0C)
      else if e = CHR ''n'' then Some (CHR 0x0A)
      else if e = CHR ''r'' then Some (CHR 0x0D)
      else if e = CHR ''t'' then Some (CHR 0x09)
      else None)"

text \<open>
  A byte from 0x80 on must begin a well-formed UTF-8 sequence (RFC 3629): the number of
  continuation bytes by the lead byte, the range of the second byte, and 0x80 to 0xBF
  for the others.
\<close>

definition utf8_continuations :: "nat \<Rightarrow> nat option" where
  "utf8_continuations b =
     (if 194 \<le> b \<and> b \<le> 223 then Some 1
      else if 224 \<le> b \<and> b \<le> 239 then Some 2
      else if 240 \<le> b \<and> b \<le> 244 then Some 3
      else None)"

definition utf8_second :: "nat \<Rightarrow> nat \<times> nat" where
  "utf8_second b =
     (if b = 224 then (160, 191)
      else if b = 237 then (128, 159)
      else if b = 240 then (144, 191)
      else if b = 244 then (128, 143)
      else (128, 191))"

definition utf8_tail :: "char \<Rightarrow> string \<Rightarrow> nat option" where
  "utf8_tail c cs =
     (case utf8_continuations (of_char c) of
        None \<Rightarrow> None
      | Some n \<Rightarrow>
          if n \<le> length cs \<and>
             fst (utf8_second (of_char c)) \<le> (of_char (hd cs) :: nat) \<and>
             (of_char (hd cs) :: nat) \<le> snd (utf8_second (of_char c)) \<and>
             list_all (\<lambda>x. 128 \<le> (of_char x :: nat) \<and> (of_char x :: nat) \<le> 191) (tl (take n cs))
          then Some n else None)"

fun parse_chars :: "string \<Rightarrow> (string \<times> string) option" where
  "parse_chars [] = None"
| "parse_chars (c # cs) =
     (if c = CHR 0x22 then Some ([], cs)
      else if c = CHR 0x5C then
        (case cs of
           [] \<Rightarrow> None
         | e # r \<Rightarrow>
             if e = CHR ''u'' then
               (case r of
                  h1 # h2 # h3 # h4 # r1 \<Rightarrow>
                    (case (hex_value h1, hex_value h2, hex_value h3, hex_value h4) of
                       (Some a, Some b, Some c, Some d) \<Rightarrow>
                         map_option (\<lambda>(k, t). (utf8 (((a * 16 + b) * 16 + c) * 16 + d) @ k, t))
                           (parse_chars r1)
                     | _ \<Rightarrow> None)
                | _ \<Rightarrow> None)
             else
               (case unescape e of
                  None \<Rightarrow> None
                | Some ch \<Rightarrow> map_option (\<lambda>(k, t). (ch # k, t)) (parse_chars r)))
      else if (of_char c :: nat) < 32 then None
      else if (of_char c :: nat) < 128 then map_option (\<lambda>(k, t). (c # k, t)) (parse_chars cs)
      else
        (case utf8_tail c cs of
           None \<Rightarrow> None
         | Some n \<Rightarrow> map_option (\<lambda>(k, t). (c # take n cs @ k, t)) (parse_chars (drop n cs))))"

text \<open>
  A number: an optional minus, an integer part without a leading zero, an optional
  fraction and an optional exponent. The value keeps the text of the number.
\<close>

definition parse_digits :: "string \<Rightarrow> (string \<times> string) option" where
  "parse_digits s =
     (if takeWhile is_digit s = [] then None
      else Some (takeWhile is_digit s, dropWhile is_digit s))"

definition parse_fraction :: "string \<Rightarrow> (string \<times> string) option" where
  "parse_fraction s =
     (case s of
        [] \<Rightarrow> Some ([], [])
      | c # r \<Rightarrow>
          if c = CHR ''.'' then map_option (\<lambda>(ds, t). (c # ds, t)) (parse_digits r)
          else Some ([], s))"

definition parse_exponent :: "string \<Rightarrow> (string \<times> string) option" where
  "parse_exponent s =
     (case s of
        [] \<Rightarrow> Some ([], [])
      | c # r \<Rightarrow>
          if c = CHR ''e'' \<or> c = CHR ''E'' then
            (case r of
               [] \<Rightarrow> None
             | g # r1 \<Rightarrow>
                 if g = CHR ''+'' \<or> g = CHR ''-''
                 then map_option (\<lambda>(ds, t). (c # g # ds, t)) (parse_digits r1)
                 else map_option (\<lambda>(ds, t). (c # ds, t)) (parse_digits r))
          else Some ([], s))"

definition parse_unsigned :: "string \<Rightarrow> (string \<times> string) option" where
  "parse_unsigned s =
     (case parse_digits s of
        None \<Rightarrow> None
      | Some (ip, s1) \<Rightarrow>
          if hd ip = CHR ''0'' \<and> length ip > 1 then None
          else
            (case parse_fraction s1 of
               None \<Rightarrow> None
             | Some (fp, s2) \<Rightarrow>
                 (case parse_exponent s2 of
                    None \<Rightarrow> None
                  | Some (ep, s3) \<Rightarrow> Some (ip @ fp @ ep, s3))))"

definition parse_number :: "string \<Rightarrow> (string \<times> string) option" where
  "parse_number s =
     (case s of
        [] \<Rightarrow> None
      | c # r \<Rightarrow>
          if c = CHR ''-'' then map_option (\<lambda>(n, t). (c # n, t)) (parse_unsigned r)
          else parse_unsigned s)"

text \<open>
  Values, the elements of an array after its opening bracket, and the members of an
  object after its opening brace. The three functions return what they parsed and the
  rest of the text. The tests on the lengths are there for the termination proof: a
  parsed value is never empty.
\<close>

lemma length_skip_ws: "length (skip_ws s) \<le> length s"
  by (simp add: skip_ws_def length_dropWhile_le)

lemma skip_ws_Cons_length: "skip_ws s = c # r \<Longrightarrow> length r < length s"
  using length_skip_ws [of s] by simp

lemma parse_chars_length: "parse_chars s = Some (k, r) \<Longrightarrow> length r < length s"
  by (induction s arbitrary: k r rule: parse_chars.induct)
     (fastforce split: if_splits list.splits option.splits)+

function parse_value :: "string \<Rightarrow> (json \<times> string) option"
  and parse_elements :: "string \<Rightarrow> (json list \<times> string) option"
  and parse_members :: "string \<Rightarrow> ((string \<times> json) list \<times> string) option"
where
  "parse_value s =
     (case skip_ws s of
        [] \<Rightarrow> None
      | c # r \<Rightarrow>
          if c = CHR ''['' then
            (case skip_ws r of
               [] \<Rightarrow> None
             | c1 # r1 \<Rightarrow>
                 if c1 = CHR '']'' then Some (JArray [], r1)
                 else map_option (\<lambda>(vs, r2). (JArray vs, r2)) (parse_elements r))
          else if c = CHR ''{'' then
            (case skip_ws r of
               [] \<Rightarrow> None
             | c1 # r1 \<Rightarrow>
                 if c1 = CHR ''}'' then Some (JObject [], r1)
                 else map_option (\<lambda>(ms, r2). (JObject ms, r2)) (parse_members r))
          else if c = CHR 0x22 then map_option (\<lambda>(k, r1). (JString k, r1)) (parse_chars r)
          else if take 4 (c # r) = ''true'' then Some (JBool True, drop 4 (c # r))
          else if take 5 (c # r) = ''false'' then Some (JBool False, drop 5 (c # r))
          else if take 4 (c # r) = ''null'' then Some (JNull, drop 4 (c # r))
          else map_option (\<lambda>(n, r1). (JNumber n, r1)) (parse_number (c # r)))"
| "parse_elements s =
     (case parse_value s of
        None \<Rightarrow> None
      | Some (v, r) \<Rightarrow>
          if length r < length s then
            (case skip_ws r of
               [] \<Rightarrow> None
             | c # r1 \<Rightarrow>
                 if c = CHR '','' then
                   (case parse_elements r1 of
                      None \<Rightarrow> None
                    | Some (vs, r2) \<Rightarrow> Some (v # vs, r2))
                 else if c = CHR '']'' then Some ([v], r1)
                 else None)
          else None)"
| "parse_members s =
     (case skip_ws s of
        [] \<Rightarrow> None
      | c # r \<Rightarrow>
          if c = CHR 0x22 then
            (case parse_chars r of
               None \<Rightarrow> None
             | Some (k, r1) \<Rightarrow>
                 (case skip_ws r1 of
                    [] \<Rightarrow> None
                  | c1 # r2 \<Rightarrow>
                      if c1 = CHR '':'' then
                        (case parse_value r2 of
                           None \<Rightarrow> None
                         | Some (v, r3) \<Rightarrow>
                             if length r3 < length s then
                               (case skip_ws r3 of
                                  [] \<Rightarrow> None
                                | c3 # r4 \<Rightarrow>
                                    if c3 = CHR '','' then
                                      (case parse_members r4 of
                                         None \<Rightarrow> None
                                       | Some (ms, r5) \<Rightarrow> Some ((k, v) # ms, r5))
                                    else if c3 = CHR ''}'' then Some ([(k, v)], r4)
                                    else None)
                             else None)
                      else None))
          else None)"
  by pat_completeness auto
termination
  apply (relation "measure (\<lambda>x. case x of
            Inl s \<Rightarrow> 2 * length s
          | Inr (Inl s) \<Rightarrow> 2 * length s + 1
          | Inr (Inr s) \<Rightarrow> 2 * length s + 1)")
  apply (auto dest!: skip_ws_Cons_length parse_chars_length)
  done

declare parse_value.simps [simp del] parse_elements.simps [simp del] parse_members.simps [simp del]

text \<open>A JSON text is one value, with nothing but white space after it.\<close>

definition parse_json :: "string \<Rightarrow> json option" where
  "parse_json s =
     (case parse_value s of
        None \<Rightarrow> None
      | Some (v, r) \<Rightarrow> if skip_ws r = [] then Some v else None)"

text \<open>
  What a reader finds in the parsed report: the \<^verbatim>\<open>severity\<close> of every entry of the
  \<^verbatim>\<open>errors\<close> array, in order.
\<close>

definition json_member :: "string \<Rightarrow> json \<Rightarrow> json option" where
  "json_member key v = (case v of JObject ms \<Rightarrow> map_of ms key | _ \<Rightarrow> None)"

definition reported_severities :: "json \<Rightarrow> json option list option" where
  "reported_severities v =
     (case json_member ''errors'' v of
        Some (JArray entries) \<Rightarrow> Some (map (json_member ''severity'') entries)
      | _ \<Rightarrow> None)"

text \<open>
  The report the specification describes for a result: an object with \<^verbatim>\<open>success\<close>,
  \<^verbatim>\<open>compilationTime\<close> and \<^verbatim>\<open>errors\<close>, the latter with one object per diagnostic, in
  order.
\<close>

definition json_of_diagnostic :: "DiagnosticMessage \<Rightarrow> json" where
  "json_of_diagnostic d =
     JObject [(''file'', JString (file' d)), (''line'', JNumber (show_int (line d))),
              (''column'', JNumber (show_int (column d))), (''message'', JString (message d)),
              (''severity'', JString (if severity d = Error then ''error'' else ''warning''))]"

definition json_of_result :: "environment \<Rightarrow> CompilationResult \<Rightarrow> json" where
  "json_of_result env result =
     JObject [(''success'', JBool (success result)),
              (''compilationTime'', JNumber (show_double env (compilationTimeMs result / 1000))),
              (''errors'', JArray (map json_of_diagnostic (diagnostics result)))]"

text \<open>
  Text that stands for itself between double quotes: printable ASCII without the
  double quote and the backslash. And text that is a JSON number.
\<close>

definition json_plain :: "string \<Rightarrow> bool" where
  "json_plain s =
     list_all (\<lambda>c. c \<noteq> CHR 0x22 \<and> c \<noteq> CHR 0x5C \<and>
                   32 \<le> (of_char c :: nat) \<and> (of_char c :: nat) < 128) s"

definition is_json_number :: "string \<Rightarrow> bool" where
  "is_json_number t = (parse_number t = Some (t, []))"

section \<open>Example inputs\<close>

text \<open>
  A concrete environment for the examples: slash-separated paths, a file system in
  which every path exists and can be written, and an SDK in which every call returns.
  The examples override single fields of it.
\<close>

definition posix_filename :: "string \<Rightarrow> string" where
  "posix_filename p = rev (takeWhile (\<lambda>c. c \<noteq> CHR ''/'') (rev p))"

definition posix_remove_filename :: "string \<Rightarrow> string" where
  "posix_remove_filename p = rev (dropWhile (\<lambda>c. c \<noteq> CHR ''/'') (rev p))"

definition posix_parent_path :: "string \<Rightarrow> string" where
  "posix_parent_path p =
     (let d = posix_remove_filename p in if length d \<le> 1 then d else butlast d)"

definition posix_path_append :: "string \<Rightarrow> string \<Rightarrow> string" where
  "posix_path_append a b =
     (if a = [] then b else if last a = CHR ''/'' then a @ b else a @ ''/'' @ b)"

definition posix_extension :: "string \<Rightarrow> string" where
  "posix_extension p =
     (let f = posix_filename p in
      if CHR ''.'' \<in> set f then CHR ''.'' # rev (takeWhile (\<lambda>c. c \<noteq> CHR ''.'') (rev f)) else [])"

definition posix_replace_extension :: "string \<Rightarrow> string \<Rightarrow> string" where
  "posix_replace_extension p ext = take (length p - length (posix_extension p)) p @ ext"

definition example_env :: environment where
  "example_env =
     \<lparr>CSPRO_SDK_AVAILABLE = True, DATE = ''Jan  1 2025'', TIME = ''12:00:00'',
      indeterminate_line = 0, indeterminate_column = 0,
      elapsed_ms = 250, show_double = (\<lambda>x. ''0.25''),
      is_relative = (\<lambda>p. p = [] \<or> hd p \<noteq> CHR ''/''),
      path_append = posix_path_append, canonical = Inr,
      filename = posix_filename, remove_filename = posix_remove_filename,
      parent_path = posix_parent_path, extension = posix_extension,
      replace_extension = posix_replace_extension,
      exists_file = (\<lambda>p. Inr True),
      get_current_path = None, set_current_path = (\<lambda>p. None), openable = (\<lambda>p. True),
      AfxGetApp = False, AfxWinInit = None, LoadMessages = None,
      new_Application = None, SetCompiledLogicVersion = None, Open = None,
      SetLogicSettings = None, BuildApplication = None, Load = Inr True,
      new_CCompiler = None, FullCompile = None, GetParserMessages = Inr []\<rparr>"

definition example_world :: world where
  "example_world =
     \<lparr>cwd = ''/work'', calls = [], files = Map.empty, open_attempts = [], cout = [], cerr = []\<rparr>"

definition example_options :: CompilerOptions where
  "example_options = CompilerOptions_default\<lparr>inputFile := ''/apps/survey/app.ent''\<rparr>"


text \<open>One engine message: an error at line 3, position 4.\<close>

definition example_message :: ParserMessage where
  "example_message =
     \<lparr>line_number = 3, position_in_line = 4, what = ''bad token'', message_text = [],
      proc_name = [], compilation_unit_name = [], type = PM_Error\<rparr>"

text \<open>
  Results for the JSON renderer: one whose message quotes a word, one whose file is a
  path with backslashes, and one with a diagnostic of severity \<open>Info\<close>.
\<close>

definition quoting_result :: CompilationResult where
  "quoting_result =
     \<lparr>success = False, errorCount = 1, warningCount = 0,
      diagnostics =
        [\<lparr>file' = ''app.ent'', line = 3, column = 4, message = ''Invalid \"end\" statement'',
          procName = [], severity = Error\<rparr>],
      compiledOutput = [], compilationTimeMs = 250\<rparr>"

definition backslash_result :: CompilationResult where
  "backslash_result =
     \<lparr>success = False, errorCount = 1, warningCount = 0,
      diagnostics =
        [\<lparr>file' = ''C:'' @ [CHR 0x5C] @ ''apps'' @ [CHR 0x5C] @ ''app.ent'', line = 3, column = 4,
          message = ''bad token'', procName = [], severity = Error\<rparr>],
      compiledOutput = [], compilationTimeMs = 250\<rparr>"

definition info_diagnostic :: DiagnosticMessage where
  "info_diagnostic =
     \<lparr>file' = ''app.ent'', line = 3, column = 4, message = ''note'', procName = [],
      severity = Info\<rparr>"

definition info_result :: CompilationResult where
  "info_result =
     \<lparr>success = True, errorCount = 0, warningCount = 0, diagnostics = [info_diagnostic],
      compiledOutput = ''app.pen'', compilationTimeMs = 250\<rparr>"

text \<open>An engine object on which \<^verbatim>\<open>initialize\<close> has succeeded.\<close>

definition initialized_engine :: CSProEngineImpl where
  "initialized_engine = createCompilerEngine\<lparr>m_initialized := True\<rparr>"

section \<open>Properties of the engine adapter\<close>

lemmas example_defs = example_env_def example_world_def example_options_def
  CompilerOptions_default_def CompilationResult_default_def createCompilerEngine_def
  posix_filename_def posix_remove_filename_def posix_parent_path_def posix_path_append_def
  posix_extension_def posix_replace_extension_def


lemma count_severity_append:
  "count_severity s (ds @ [d]) = count_severity s ds + (if severity d = s then 1 else 0)"
  by (simp add: count_severity_def)

lemma translate_message_invariant:
  "errorCount (translate_message options m r)
     - count_severity Error (diagnostics (translate_message options m r))
   = errorCount r - count_severity Error (diagnostics r)"
  "warningCount (translate_message options m r)
     - count_severity Warning (diagnostics (translate_message options m r))
   = warningCount r - count_severity Warning (diagnostics r)"
  by (cases "type m"; simp add: translate_message_def Let_def count_severity_append)+

lemma drain_messages_invariant:
  "errorCount (drain_messages options ms r)
     - count_severity Error (diagnostics (drain_messages options ms r))
   = errorCount r - count_severity Error (diagnostics r) \<and>
   warningCount (drain_messages options ms r)
     - count_severity Warning (diagnostics (drain_messages options ms r))
   = warningCount r - count_severity Warning (diagnostics r)"
  by (induction ms arbitrary: r) (simp_all add: translate_message_invariant)

lemma drain_messages_counts:
  "errorCount (drain_messages options ms CompilationResult_default)
     = count_severity Error (diagnostics (drain_messages options ms CompilationResult_default))"
  "warningCount (drain_messages options ms CompilationResult_default)
     = count_severity Warning (diagnostics (drain_messages options ms CompilationResult_default))"
  using drain_messages_invariant [of options ms CompilationResult_default]
  by (simp_all add: CompilationResult_default_def count_severity_def)

lemma compile_try_FellThrough:
  assumes "compile_try env options e w CompilationResult_default = (FellThrough, e1, w1, r1)"
  shows "\<exists>ms. GetParserMessages env = Inr ms \<and>
           diagnostics r1 = diagnostics (drain_messages options ms CompilationResult_default) \<and>
           errorCount r1 = errorCount (drain_messages options ms CompilationResult_default) \<and>
           warningCount r1 = warningCount (drain_messages options ms CompilationResult_default) \<and>
           success r1 = (errorCount r1 = 0) \<and> cwd w1 = cwd w"
  using assms
  by (auto simp add: compile_try_def Let_def
      split: option.splits sum.splits bool.splits if_splits)

lemma compile_try_Returned:
  assumes "compile_try env options e w CompilationResult_default = (Returned, e1, w1, r1)"
  shows "Load env = Inr False \<and> errorCount r1 = 0 \<and> warningCount r1 = 0 \<and> \<not> success r1 \<and>
         diagnostics r1 =
           [\<lparr>file' = inputFile options, line = 0, column = 0,
             message = ''Failed to load application source code'',
             procName = [], severity = Error\<rparr>] \<and> cwd w1 = cwd w"
  using assms
  by (auto simp add: compile_try_def Let_def CompilationResult_default_def
      split: option.splits sum.splits bool.splits if_splits)

lemma compile_try_Threw:
  assumes "compile_try env options e w CompilationResult_default = (Threw x, e1, w1, r1)"
  shows "r1 = CompilationResult_default"
  using assms
  by (auto simp add: compile_try_def Let_def
      split: option.splits sum.splits bool.splits if_splits)

lemma initialize_cwd: "cwd (snd (snd (initialize env e w))) = cwd w"
  by (simp add: initialize_def Let_def split: option.splits)

lemma compile_normal_counts:
  assumes "CSPRO_SDK_AVAILABLE env" "m_initialized e"
    and "fst (compile_try env options e w CompilationResult_default) = FellThrough"
    and "fst (compile env options e w) = Inr r"
  shows "errorCount r = count_severity Error (diagnostics r) \<and>
         warningCount r = count_severity Warning (diagnostics r)"
proof -
  obtain e1 w1 r1 where t: "compile_try env options e w CompilationResult_default = (FellThrough, e1, w1, r1)"
    using assms(3) by (cases "compile_try env options e w CompilationResult_default") auto
  from compile_try_FellThrough [OF t] obtain ms where
    ms: "diagnostics r1 = diagnostics (drain_messages options ms CompilationResult_default)"
        "errorCount r1 = errorCount (drain_messages options ms CompilationResult_default)"
        "warningCount r1 = warningCount (drain_messages options ms CompilationResult_default)"
    by blast
  have "r = r1\<lparr>compilationTimeMs := elapsed_ms env\<rparr>"
    using assms(1,2,4) t by (simp add: compile_def Let_def)
  then show ?thesis using ms by (simp add: drain_messages_counts)
qed


lemma initialize_True_sdk:
  "initialize env e w = (True, e0, w0) \<Longrightarrow> \<not> m_initialized e \<Longrightarrow> CSPRO_SDK_AVAILABLE env"
  by (auto simp add: initialize_def Let_def split: if_splits option.splits)

lemma compile_catch_default:
  "diagnostics (compile_catch options x CompilationResult_default) = [failure_diagnostic options x]"
  "success (compile_catch options x CompilationResult_default) = False"
  "errorCount (compile_catch options x CompilationResult_default) = 0"
  "warningCount (compile_catch options x CompilationResult_default) = 0"
  by (cases x; simp add: compile_catch_def CompilationResult_default_def failure_diagnostic_def)+

lemma compile_init_failed:
  assumes "(if m_initialized e then (True, e, w) else initialize env e w) = (False, e0, w0)"
  shows "compile env options e w =
     (Inr (CompilationResult_default\<lparr>success := False,
             diagnostics := [\<lparr>file' = [], line = 0, column = 0,
                              message = ''Failed to initialize CSPro engine'',
                              procName = [], severity = Error\<rparr>]\<rparr>), e0, w0)"
  using assms by (simp add: compile_def Let_def CompilationResult_default_def)

lemma compile_sdk:
  assumes "(if m_initialized e then (True, e, w) else initialize env e w) = (True, e0, w0)"
    and "CSPRO_SDK_AVAILABLE env"
    and "compile_try env options e0 w0 CompilationResult_default = (c, e1, w1, r1)"
  shows "compile env options e w =
     (case c of
        Returned \<Rightarrow> (Inr r1, e1, w1)
      | FellThrough \<Rightarrow> (Inr (r1\<lparr>compilationTimeMs := elapsed_ms env\<rparr>), e1, w1)
      | Threw x \<Rightarrow> (Inr ((compile_catch options x r1)\<lparr>compilationTimeMs := elapsed_ms env\<rparr>), e1, w1))"
  using assms by (cases c) (simp_all add: compile_def Let_def)

lemma compile_success_tracks_diagnostics:
  assumes sdk: "CSPRO_SDK_AVAILABLE env \<or> \<not> m_initialized e"
    and res: "fst (compile env options e w) = Inr r"
  shows "success r \<longleftrightarrow> count_severity Error (diagnostics r) = 0"
proof -
  obtain ok e0 w0 where init:
    "(if m_initialized e then (True, e, w) else initialize env e w) = (ok, e0, w0)"
    by (metis prod_cases3)
  show ?thesis
  proof (cases ok)
    case False
    with init res show ?thesis
      by (auto simp add: compile_init_failed CompilationResult_default_def count_severity_def)
  next
    case True
    with init sdk have av: "CSPRO_SDK_AVAILABLE env"
      by (auto dest: initialize_True_sdk split: if_splits)
    obtain c e1 w1 r1 where t:
      "compile_try env options e0 w0 CompilationResult_default = (c, e1, w1, r1)"
      by (metis prod_cases4)
    from True init have init': "(if m_initialized e then (True, e, w) else initialize env e w) = (True, e0, w0)"
      by simp
    note eq = compile_sdk [OF init' av t]
    show ?thesis
    proof (cases c)
      case FellThrough
      with t compile_try_FellThrough [of env options e0 w0 e1 w1 r1] obtain ms where
        "diagnostics r1 = diagnostics (drain_messages options ms CompilationResult_default)"
        "errorCount r1 = errorCount (drain_messages options ms CompilationResult_default)"
        "success r1 = (errorCount r1 = 0)"
        by blast
      with eq res FellThrough show ?thesis
        by (auto simp add: drain_messages_counts)
    next
      case Returned
      with t compile_try_Returned [of env options e0 w0 e1 w1 r1] eq res show ?thesis
        by (auto simp add: count_severity_def)
    next
      case (Threw x)
      with t compile_try_Threw [of env options e0 w0 x e1 w1 r1] eq res show ?thesis
        by (auto simp add: compile_catch_default count_severity_def failure_diagnostic_def)
    qed
  qed
qed

lemma compile_success_errorCount:
  assumes res: "fst (compile env options e w) = Inr r" and "success r"
  shows "errorCount r = 0"
proof -
  obtain ok e0 w0 where init:
    "(if m_initialized e then (True, e, w) else initialize env e w) = (ok, e0, w0)"
    by (metis prod_cases3)
  show ?thesis
  proof (cases "ok \<and> CSPRO_SDK_AVAILABLE env")
    case False
    with init res assms(2) show ?thesis
      by (cases ok) (auto simp add: compile_init_failed compile_def Let_def)
  next
    case True
    obtain c e1 w1 r1 where t:
      "compile_try env options e0 w0 CompilationResult_default = (c, e1, w1, r1)"
      by (metis prod_cases4)
    from True init have init': "(if m_initialized e then (True, e, w) else initialize env e w) = (True, e0, w0)"
      by simp
    note eq = compile_sdk [OF init' conjunct2 [OF True] t]
    show ?thesis
    proof (cases c)
      case FellThrough
      with t compile_try_FellThrough [of env options e0 w0 e1 w1 r1] eq res assms(2)
      show ?thesis by auto
    next
      case Returned
      with t compile_try_Returned [of env options e0 w0 e1 w1 r1] eq res assms(2)
      show ?thesis by auto
    next
      case (Threw x)
      with t eq res assms(2) show ?thesis
        by (auto simp add: compile_catch_def split: cpp_exception.splits)
    qed
  qed
qed

lemma compile_try_cwd:
  assumes "Open env = None" "SetLogicSettings env = None" "set_current_path env (cwd w) = None"
  shows "cwd (fst (snd (snd (compile_try env options e w r)))) = cwd w"
  using assms
  by (auto simp add: compile_try_def Let_def
      split: option.splits sum.splits bool.splits if_splits)

lemma compile_restores_cwd:
  assumes "Open env = None" "SetLogicSettings env = None" "set_current_path env (cwd w) = None"
  shows "cwd (snd (snd (compile env options e w))) = cwd w"
proof -
  obtain ok e0 w0 where init:
    "(if m_initialized e then (True, e, w) else initialize env e w) = (ok, e0, w0)"
    by (metis prod_cases3)
  then have w0: "cwd w0 = cwd w"
    using initialize_cwd [of env e w] by (auto split: if_splits)
  obtain c e1 w1 r1 where t:
    "compile_try env options e0 w0 CompilationResult_default = (c, e1, w1, r1)"
    by (metis prod_cases4)
  with compile_try_cwd [of env w0 options e0 CompilationResult_default] assms w0
  have "cwd w1 = cwd w" by simp
  with init t w0 show ?thesis
    by (cases c) (auto simp add: compile_def Let_def)
qed


text \<open>
  C1. The claim: in every result returned by the adapter's \<^verbatim>\<open>compile\<close>,
  \<open>errorCount\<close> is the number of \<open>Error\<close> entries of \<open>diagnostics\<close> and
  \<open>warningCount\<close> the number of \<open>Warning\<close> entries, also when the result holds a
  synthetic diagnostic. The counters are only incremented in the loop over the engine's
  messages (\<open>compile_normal_counts\<close>); the three places that push a synthetic
  diagnostic leave them alone. Evaluated here: a failed \<^verbatim>\<open>Load\<close>, a failed
  initialisation and a caught exception each return one \<open>Error\<close> diagnostic with
  \<open>errorCount = 0\<close>.
\<close>

theorem compile_synthetic_diagnostic_uncounted:
  "fst (compile (example_env\<lparr>Load := Inr False\<rparr>) example_options
          createCompilerEngine example_world) =
     Inr \<lparr>success = False, errorCount = 0, warningCount = 0,
          diagnostics = [\<lparr>file' = ''/apps/survey/app.ent'', line = 0, column = 0,
                          message = ''Failed to load application source code'',
                          procName = [], severity = Error\<rparr>],
          compiledOutput = [], compilationTimeMs = 0\<rparr> \<and>
   fst (compile (example_env\<lparr>AfxWinInit := Some OtherException\<rparr>) example_options
          createCompilerEngine example_world) =
     Inr \<lparr>success = False, errorCount = 0, warningCount = 0,
          diagnostics = [\<lparr>file' = [], line = 0, column = 0,
                          message = ''Failed to initialize CSPro engine'',
                          procName = [], severity = Error\<rparr>],
          compiledOutput = [], compilationTimeMs = 0\<rparr> \<and>
   fst (compile (example_env\<lparr>canonical := (\<lambda>p. Inl (StdException ''No such file''))\<rparr>)
          example_options createCompilerEngine example_world) =
     Inr \<lparr>success = False, errorCount = 0, warningCount = 0,
          diagnostics = [\<lparr>file' = ''/apps/survey/app.ent'', line = 0, column = 0,
                          message = ''Exception: No such file'',
                          procName = [], severity = Error\<rparr>],
          compiledOutput = [], compilationTimeMs = 250\<rparr>"
  by (simp add: compile_def compile_try_def initialize_def example_defs Let_def
      compile_catch_def)

text \<open>
  C2. The claim: in every result returned by the adapter's \<^verbatim>\<open>compile\<close>,
  \<open>success\<close> holds if and only if \<open>errorCount = 0\<close>. The flag follows the
  diagnostics (\<open>compile_success_tracks_diagnostics\<close>) and a successful result has
  \<open>errorCount = 0\<close> (\<open>compile_success_errorCount\<close>), but the counter misses the
  synthetic diagnostics. Evaluated here: the engine throws in \<^verbatim>\<open>FullCompile\<close>, and
  the build without the SDK, where the initialisation fails; both results have
  \<open>success = False\<close> with \<open>errorCount = 0\<close>.
\<close>

theorem compile_failure_with_zero_errorCount:
  "fst (compile (example_env\<lparr>FullCompile := Some (StdException ''internal error'')\<rparr>)
          example_options createCompilerEngine example_world) =
     Inr \<lparr>success = False, errorCount = 0, warningCount = 0,
          diagnostics = [\<lparr>file' = ''/apps/survey/app.ent'', line = 0, column = 0,
                          message = ''Exception: internal error'',
                          procName = [], severity = Error\<rparr>],
          compiledOutput = [], compilationTimeMs = 250\<rparr> \<and>
   \<not> isl (fst (compile (example_env\<lparr>CSPRO_SDK_AVAILABLE := False\<rparr>) example_options
                 createCompilerEngine example_world)) \<and>
   success (projr (fst (compile (example_env\<lparr>CSPRO_SDK_AVAILABLE := False\<rparr>) example_options
                          createCompilerEngine example_world))) = False \<and>
   errorCount (projr (fst (compile (example_env\<lparr>CSPRO_SDK_AVAILABLE := False\<rparr>) example_options
                             createCompilerEngine example_world))) = 0"
  by (simp add: compile_def compile_try_def compile_catch_def initialize_def example_defs Let_def)

text \<open>
  C3. The claim: after every call of \<^verbatim>\<open>compile\<close> the working directory is what it
  was before the call. \<^verbatim>\<open>compile\<close> saves the directory, changes to the directory of
  the input file, opens the application and changes back; the two handlers do not
  change back. When nothing throws between the two changes the directory is restored
  (\<open>compile_restores_cwd\<close>). Evaluated here: \<^verbatim>\<open>Open\<close> throws, the call starts in
  \<^verbatim>\<open>/work\<close> and ends in \<^verbatim>\<open>/apps/survey/\<close>.
\<close>

theorem compile_leaves_cwd_changed:
  "cwd example_world = ''/work'' \<and>
   cwd (snd (snd (compile (example_env\<lparr>Open := Some (StdException ''bad file'')\<rparr>)
                    example_options createCompilerEngine example_world))) = ''/apps/survey/'' \<and>
   fst (compile (example_env\<lparr>Open := Some (StdException ''bad file'')\<rparr>)
          example_options createCompilerEngine example_world) =
     Inr \<lparr>success = False, errorCount = 0, warningCount = 0,
          diagnostics = [\<lparr>file' = ''/apps/survey/app.ent'', line = 0, column = 0,
                          message = ''Exception: bad file'',
                          procName = [], severity = Error\<rparr>],
          compiledOutput = [], compilationTimeMs = 250\<rparr>"
  by (simp add: compile_def compile_try_def initialize_def example_defs Let_def
      compile_catch_def)

text \<open>
  C4. \<^verbatim>\<open>compile\<close> never lets an exception out: every call returns a result, and
  when the \<^verbatim>\<open>try\<close> block is left by an exception, the result holds exactly one
  diagnostic, the synthetic \<open>Error\<close> with the description of the failure, and
  \<open>success\<close> is false.
\<close>

theorem compile_never_propagates:
  "\<exists>r. fst (compile env options e w) = Inr r \<and>
     (\<forall>x e0 w0 e1 w1 r1.
        CSPRO_SDK_AVAILABLE env \<longrightarrow>
        (if m_initialized e then (True, e, w) else initialize env e w) = (True, e0, w0) \<longrightarrow>
        compile_try env options e0 w0 CompilationResult_default = (Threw x, e1, w1, r1) \<longrightarrow>
        diagnostics r = [failure_diagnostic options x] \<and> \<not> success r)"
proof -
  obtain ok e0 w0 where init:
    "(if m_initialized e then (True, e, w) else initialize env e w) = (ok, e0, w0)"
    by (metis prod_cases3)
  show ?thesis
  proof (cases "ok \<and> CSPRO_SDK_AVAILABLE env")
    case False
    with init show ?thesis
      by (cases ok) (auto simp add: compile_init_failed compile_def Let_def)
  next
    case True
    obtain c e1 w1 r1 where t:
      "compile_try env options e0 w0 CompilationResult_default = (c, e1, w1, r1)"
      by (metis prod_cases4)
    from True init have init': "(if m_initialized e then (True, e, w) else initialize env e w) = (True, e0, w0)"
      by simp
    note eq = compile_sdk [OF init' conjunct2 [OF True] t]
    show ?thesis
    proof (cases c)
      case FellThrough
      with eq init' t show ?thesis by auto
    next
      case Returned
      with eq init' t show ?thesis by auto
    next
      case (Threw x)
      with t compile_try_Threw [of env options e0 w0 x e1 w1 r1] have "r1 = CompilationResult_default"
        by simp
      with Threw eq init' t show ?thesis
        by (auto simp add: compile_catch_default)
    qed
  qed
qed

theorem compile_never_propagates_witness:
  "\<exists>r. fst (compile (example_env\<lparr>Open := Some (StdException ''bad file'')\<rparr>)
             example_options createCompilerEngine example_world) = Inr r \<and>
       diagnostics r =
         [\<lparr>file' = ''/apps/survey/app.ent'', line = 0, column = 0,
           message = ''Exception: bad file'', procName = [], severity = Error\<rparr>] \<and>
       \<not> success r"
  using compile_never_propagates
    [of "example_env\<lparr>Open := Some (StdException ''bad file'')\<rparr>"
        example_options createCompilerEngine example_world]
  by (simp add: compile_def compile_try_def initialize_def example_defs Let_def
      compile_catch_def failure_diagnostic_def)

text \<open>
  C8. The claim: \<^verbatim>\<open>initialize\<close> on an initialised engine is a no-op that returns
  success and repeats no process-wide side effect. It is not a no-op:
  \<^verbatim>\<open>setlocale\<close> and \<^verbatim>\<open>_setmbcp\<close> run before the test of \<^verbatim>\<open>m_initialized\<close>, on
  every call.
\<close>

theorem initialize_not_noop:
  "initialize example_env initialized_engine example_world
     \<noteq> (True, initialized_engine, example_world)"
  by (simp add: initialize_def initialized_engine_def example_defs Let_def)

text \<open>
  C8, as amended. Two calls of \<^verbatim>\<open>initialize\<close> in a row have the outcome of one.
  On an initialised engine \<^verbatim>\<open>initialize\<close> returns success, leaves the engine object
  as it is, and calls neither \<^verbatim>\<open>AfxWinInit\<close> nor \<^verbatim>\<open>LoadMessages\<close> again; it does
  call \<^verbatim>\<open>setlocale\<close> and \<^verbatim>\<open>_setmbcp\<close> again. A call that succeeds leaves the
  engine initialised, so the next call succeeds too, whatever the SDK would do. A call
  that fails leaves the engine object as it was, not initialised, so the next call in
  the same environment makes the whole attempt again, \<^verbatim>\<open>AfxWinInit\<close> included, and
  fails again.
\<close>

theorem initialize_idempotent:
  "(m_initialized e \<longrightarrow>
      initialize env e w = (True, e, w\<lparr>calls := calls w @ [Call_setlocale, Call_setmbcp]\<rparr>)) \<and>
   (initialize env e w = (True, e1, w1) \<longrightarrow>
      m_initialized e1 \<and>
      initialize env2 e1 w1 = (True, e1, w1\<lparr>calls := calls w1 @ [Call_setlocale, Call_setmbcp]\<rparr>)) \<and>
   (initialize env e w = (False, e1, w1) \<longrightarrow>
      e1 = e \<and> \<not> m_initialized e \<and>
      initialize env e1 w1 =
        (False, e1,
         w1\<lparr>calls := calls w1 @ [Call_setlocale, Call_setmbcp] @
                  (if CSPRO_SDK_AVAILABLE env then [Call_AfxWinInit] else [])\<rparr>))"
  by (auto simp add: initialize_def Let_def split: if_splits option.splits)

theorem initialize_idempotent_witness:
  "m_initialized initialized_engine \<and>
   initialize example_env initialized_engine example_world =
     (True, initialized_engine, example_world\<lparr>calls := [Call_setlocale, Call_setmbcp]\<rparr>) \<and>
   initialize example_env createCompilerEngine example_world =
     (True, initialized_engine,
      example_world\<lparr>calls := [Call_setlocale, Call_setmbcp, Call_AfxWinInit, Call_LoadMessages]\<rparr>) \<and>
   initialize (example_env\<lparr>AfxWinInit := Some OtherException\<rparr>) initialized_engine
     (example_world\<lparr>calls := [Call_setlocale, Call_setmbcp, Call_AfxWinInit, Call_LoadMessages]\<rparr>) =
     (True, initialized_engine,
      example_world\<lparr>calls := [Call_setlocale, Call_setmbcp, Call_AfxWinInit, Call_LoadMessages,
                               Call_setlocale, Call_setmbcp]\<rparr>) \<and>
   initialize (example_env\<lparr>AfxWinInit := Some OtherException\<rparr>) createCompilerEngine example_world =
     (False, createCompilerEngine,
      example_world\<lparr>calls := [Call_setlocale, Call_setmbcp, Call_AfxWinInit]\<rparr>) \<and>
   \<not> m_initialized createCompilerEngine \<and>
   initialize (example_env\<lparr>AfxWinInit := Some OtherException\<rparr>) createCompilerEngine
     (example_world\<lparr>calls := [Call_setlocale, Call_setmbcp, Call_AfxWinInit]\<rparr>) =
     (False, createCompilerEngine,
      example_world\<lparr>calls := [Call_setlocale, Call_setmbcp, Call_AfxWinInit,
                               Call_setlocale, Call_setmbcp, Call_AfxWinInit]\<rparr>)"
  using initialize_idempotent
    [of initialized_engine example_env example_world initialized_engine
        "example_world\<lparr>calls := [Call_setlocale, Call_setmbcp, Call_AfxWinInit, Call_LoadMessages]\<rparr>"
        "example_env\<lparr>AfxWinInit := Some OtherException\<rparr>"]
    initialize_idempotent
    [of createCompilerEngine "example_env\<lparr>AfxWinInit := Some OtherException\<rparr>" example_world
        createCompilerEngine
        "example_world\<lparr>calls := [Call_setlocale, Call_setmbcp, Call_AfxWinInit]\<rparr>"]
  by (simp add: initialize_def initialized_engine_def example_defs Let_def)

section \<open>Properties of the command-line driver\<close>

lemma formatted_records_append:
  "formatted_records ds out = out @ concat (map (\<lambda>d. editor_compatible_line d @ [CHR 0x0A]) ds)"
  by (induction ds arbitrary: out)
     (simp_all add: formatted_record_def editor_compatible_line_def Let_def)

lemma show_int_5: "show_int 5 = ''5''"
  by (simp add: show_int_def show_nat.simps digit_char_def)

text \<open>
  C6. The editor-compatible log is the concatenation, in the order of the diagnostics,
  of one line per diagnostic, each in the shape the specification gives for it
  (\<open>editor_compatible_line\<close>: one of four, by whether \<open>procName\<close> is non-empty and
  whether \<open>line > 0\<close>), each ended by a newline. A diagnostic with procedure
  \<^verbatim>\<open>INPUT\<close>, line 5, message \<^verbatim>\<open>bad token\<close> and severity \<open>Error\<close> is written as
  \<^verbatim>\<open>ERROR(INPUT, 5): bad token\<close>; with no procedure and line 0 as
  \<^verbatim>\<open>ERROR: bad token\<close>.
\<close>

theorem formatted_log_shapes:
  "formatted_log result =
     concat (map (\<lambda>d. editor_compatible_line d @ [CHR 0x0A]) (diagnostics result)) \<and>
   formatted_log (result\<lparr>diagnostics :=
       [\<lparr>file' = f, line = 5, column = c, message = ''bad token'', procName = ''INPUT'',
         severity = Error\<rparr>]\<rparr>) = ''ERROR(INPUT, 5): bad token'' @ [CHR 0x0A] \<and>
   formatted_log (result\<lparr>diagnostics :=
       [\<lparr>file' = f, line = 0, column = c, message = ''bad token'', procName = [],
         severity = Error\<rparr>]\<rparr>) = ''ERROR: bad token'' @ [CHR 0x0A]"
  by (simp add: formatted_log_def formatted_records_append editor_compatible_line_def show_int_5)

lemma initialize_fresh:
  "fst (initialize env createCompilerEngine w) =
     (CSPRO_SDK_AVAILABLE env \<and> (AfxGetApp env \<or> AfxWinInit env = None))"
  by (simp add: initialize_def createCompilerEngine_def Let_def split: option.splits)

lemma initialize_frame:
  "files (snd (snd (initialize env e w))) = files w"
  "open_attempts (snd (snd (initialize env e w))) = open_attempts w"
  by (simp_all add: initialize_def Let_def split: option.splits)

lemma compile_try_frame:
  "files (fst (snd (snd (compile_try env options e w r)))) = files w"
  "open_attempts (fst (snd (snd (compile_try env options e w r)))) = open_attempts w"
  by (auto simp add: compile_try_def Let_def
      split: option.splits sum.splits bool.splits if_splits)

lemma compile_frame:
  "files (snd (snd (compile env options e w))) = files w \<and>
   open_attempts (snd (snd (compile env options e w))) = open_attempts w"
proof -
  obtain ok e0 w0 where init:
    "(if m_initialized e then (True, e, w) else initialize env e w) = (ok, e0, w0)"
    by (metis prod_cases3)
  then have w0: "files w0 = files w \<and> open_attempts w0 = open_attempts w"
    using initialize_frame [of env e w] by (auto split: if_splits)
  obtain c e1 w1 r1 where t:
    "compile_try env options e0 w0 CompilationResult_default = (c, e1, w1, r1)"
    by (metis prod_cases4)
  with compile_try_frame [of env options e0 w0 CompilationResult_default] w0
  have "files w1 = files w \<and> open_attempts w1 = open_attempts w" by simp
  with init t w0 show ?thesis
    by (cases c) (auto simp add: compile_def Let_def)
qed

lemma announce_frame:
  "files (announce c w) = files w" "open_attempts (announce c w) = open_attempts w"
  "cwd (announce c w) = cwd w"
  by (simp_all add: announce_def Let_def)

lemma resolve_path_cwd: "cwd w1 = cwd w2 \<Longrightarrow> resolve_path env w1 p = resolve_path env w2 p"
  by (simp add: resolve_path_def)

lemma resolve_path_absolute: "\<not> is_relative env p \<Longrightarrow> resolve_path env w p = p"
  by (simp add: resolve_path_def)

lemma write_file_frame:
  "open_attempts (write_file env p t w) = open_attempts w @ [resolve_path env w p]"
  "files (write_file env p t w) =
     (if openable env (resolve_path env w p) then (files w)(resolve_path env w p \<mapsto> t)
      else files w)"
  "cwd (write_file env p t w) = cwd w"
  by (simp_all add: write_file_def Let_def)

lemma save_errors_effect:
  "open_attempts (save_errors env c result w) =
     open_attempts w @
       (if diagnostics result = [] then []
        else [resolve_path env w (detailed_log_path env c),
              resolve_path env w (editor_log_path env c)])"
  "files (save_errors env c result w) =
     (if diagnostics result = [] then files w
      else (\<lambda>p. if p = resolve_path env w (editor_log_path env c) \<and> openable env p
                 then Some (formatted_log result)
               else if p = resolve_path env w (detailed_log_path env c) \<and> openable env p
                 then Some (detailed_log env (CLC_inputFile c) result)
               else files w p))"
  "cwd (save_errors env c result w) = cwd w"
proof -
  define p1 where "p1 = detailed_log_path env c"
  define p2 where "p2 = editor_log_path env c"
  define w1 where "w1 = write_file env p1 (detailed_log env (CLC_inputFile c) result) w"
  define w2 where "w2 =
    (if is_open env w p1 \<and> verboseMode c
     then w1\<lparr>cout := cout w1 @ ''Errors/warnings saved to: '' @ p1 @ [CHR 0x0A]\<rparr> else w1)"
  define w3 where "w3 = write_file env p2 (formatted_log result) w2"
  define w4 where "w4 =
    (if is_open env w2 p2 \<and> verboseMode c
     then w3\<lparr>cout := cout w3 @ ''Formatted errors saved to: '' @ p2 @ [CHR 0x0A]\<rparr> else w3)"
  have s: "save_errors env c result w = (if diagnostics result \<noteq> [] then w4 else w)"
    by (simp add: save_errors_def Let_def w4_def w3_def w2_def w1_def p1_def p2_def
        detailed_log_path_def editor_log_path_def)
  have c2: "cwd w2 = cwd w" by (simp add: w2_def w1_def write_file_frame)
  have r2: "resolve_path env w2 p2 = resolve_path env w p2"
    by (rule resolve_path_cwd [OF c2])
  have a2: "open_attempts w2 = open_attempts w @ [resolve_path env w p1]"
    by (simp add: w2_def w1_def write_file_frame)
  have f2: "files w2 =
      (if openable env (resolve_path env w p1)
       then (files w)(resolve_path env w p1 \<mapsto> detailed_log env (CLC_inputFile c) result)
       else files w)"
    by (simp add: w2_def w1_def write_file_frame)
  have a4: "open_attempts w4 = open_attempts w2 @ [resolve_path env w p2]"
    by (simp add: w4_def w3_def write_file_frame r2)
  have f4: "files w4 =
      (if openable env (resolve_path env w p2)
       then (files w2)(resolve_path env w p2 \<mapsto> formatted_log result) else files w2)"
    by (simp add: w4_def w3_def write_file_frame r2)
  have c4: "cwd w4 = cwd w" by (simp add: w4_def w3_def write_file_frame c2)
  show "open_attempts (save_errors env c result w) =
     open_attempts w @
       (if diagnostics result = [] then []
        else [resolve_path env w (detailed_log_path env c),
              resolve_path env w (editor_log_path env c)])"
    by (simp add: s a4 a2 p1_def p2_def)
  show "cwd (save_errors env c result w) = cwd w"
    by (simp add: s c4)
  have "files w4 =
      (\<lambda>p. if p = resolve_path env w p2 \<and> openable env p then Some (formatted_log result)
           else if p = resolve_path env w p1 \<and> openable env p
             then Some (detailed_log env (CLC_inputFile c) result)
           else files w p)"
    unfolding f4 f2 by (rule ext) auto
  then show "files (save_errors env c result w) =
     (if diagnostics result = [] then files w
      else (\<lambda>p. if p = resolve_path env w (editor_log_path env c) \<and> openable env p
                 then Some (formatted_log result)
               else if p = resolve_path env w (detailed_log_path env c) \<and> openable env p
                 then Some (detailed_log env (CLC_inputFile c) result)
               else files w p))"
    unfolding p1_def p2_def by (simp add: s)
qed

text \<open>
  C5. The claim: both log files are written exactly when the result has a diagnostic.
  \<^verbatim>\<open>CSProCommandLineCompiler::compile\<close> returns before the block that saves the
  diagnostics when the initialisation of the engine fails: its result has one diagnostic
  and no file is opened. And a stream that cannot be opened is skipped: the result has
  a diagnostic and nothing is written.
\<close>

theorem log_files_skipped:
  "CSProCommandLineCompiler_compile (example_env\<lparr>AfxWinInit := Some OtherException\<rparr>)
     (CSProCommandLineCompiler_new\<lparr>CLC_inputFile := ''/apps/survey/app.ent''\<rparr>) example_world =
     (Inr \<lparr>success = False, errorCount = 1, warningCount = 0,
           diagnostics = [\<lparr>file' = [], line = 0, column = 0,
                           message = ''Failed to initialize CSPro compiler'',
                           procName = [], severity = Error\<rparr>],
           compiledOutput = [], compilationTimeMs = 0\<rparr>,
      example_world\<lparr>calls := [Call_setlocale, Call_setmbcp, Call_AfxWinInit]\<rparr>) \<and>
   open_attempts (example_world\<lparr>calls := [Call_setlocale, Call_setmbcp, Call_AfxWinInit]\<rparr>) = [] \<and>
   fst (CSProCommandLineCompiler_compile
          (example_env\<lparr>GetParserMessages := Inr [example_message], openable := (\<lambda>p. False)\<rparr>)
          (CSProCommandLineCompiler_new\<lparr>CLC_inputFile := ''/apps/survey/app.ent''\<rparr>)
          example_world) =
     Inr \<lparr>success = False, errorCount = 1, warningCount = 0,
          diagnostics = [\<lparr>file' = ''/apps/survey/app.ent'', line = 3, column = 4,
                          message = ''bad token'', procName = [], severity = Error\<rparr>],
          compiledOutput = [], compilationTimeMs = 250\<rparr> \<and>
   files (snd (CSProCommandLineCompiler_compile
          (example_env\<lparr>GetParserMessages := Inr [example_message], openable := (\<lambda>p. False)\<rparr>)
          (CSProCommandLineCompiler_new\<lparr>CLC_inputFile := ''/apps/survey/app.ent''\<rparr>)
          example_world)) = Map.empty"
  by (simp add: CSProCommandLineCompiler_compile_def initialize_def announce_def compile_def
      compile_try_def translate_message_def static_cast_int_def example_message_def
      save_errors_def write_file_def is_open_def resolve_path_def
      CSProCommandLineCompiler_new_def example_defs Let_def)

text \<open>
  C5, as amended. When the engine initialises, and the working directory after the call
  is the one before it or the two log paths are absolute, the two files
  \<^verbatim>\<open>compileErrors.txt\<close> and \<^verbatim>\<open>compileErrorsFormatted.txt\<close> in the directory of the
  input file (a relative path taken from the working directory of the call) are
  opened, in this order, exactly when the result has a diagnostic, and nothing else is
  opened; each receives its log when it can be opened, and no other file changes. The
  statement holds for every compiler object, whatever \<open>jsonOutput\<close> and
  \<open>verboseMode\<close> are.
\<close>

theorem log_files_iff_diagnostics:
  assumes init: "fst (initialize env createCompilerEngine w)"
    and run: "CSProCommandLineCompiler_compile env c w = (Inr result, w')"
    and place: "cwd w' = cwd w \<or>
                (\<not> is_relative env (detailed_log_path env c) \<and>
                 \<not> is_relative env (editor_log_path env c))"
  shows "open_attempts w' =
           open_attempts w @
             (if diagnostics result = [] then []
              else [resolve_path env w (detailed_log_path env c),
                    resolve_path env w (editor_log_path env c)]) \<and>
         files w' =
           (if diagnostics result = [] then files w
            else (\<lambda>p. if p = resolve_path env w (editor_log_path env c) \<and> openable env p
                       then Some (formatted_log result)
                     else if p = resolve_path env w (detailed_log_path env c) \<and> openable env p
                       then Some (detailed_log env (CLC_inputFile c) result)
                     else files w p))"
proof -
  obtain ok engine w1 where i: "initialize env createCompilerEngine (announce c w) = (ok, engine, w1)"
    by (metis prod_cases3)
  have ok: ok
    using init i initialize_fresh [of env w] initialize_fresh [of env "announce c w"] by simp
  have w1: "files w1 = files w" "open_attempts w1 = open_attempts w"
    using initialize_frame [of env createCompilerEngine "announce c w"] i
    by (simp_all add: announce_frame)
  define options where "options = CompilerOptions_default
       \<lparr>inputFile := CLC_inputFile c, verboseOutput := verboseMode c, checkSyntaxOnly := checkOnly c\<rparr>"
  obtain res engine1 w2 where k: "compile env options engine w1 = (res, engine1, w2)"
    by (metis prod_cases3)
  have w2: "files w2 = files w" "open_attempts w2 = open_attempts w"
    using compile_frame [of env options engine w1] k w1 by simp_all
  have "CSProCommandLineCompiler_compile env c w =
          (case res of Inl x \<Rightarrow> (Inl x, w2) | Inr r \<Rightarrow> (Inr r, save_errors env c r w2))"
    using i ok k
    by (simp add: CSProCommandLineCompiler_compile_def options_def [symmetric] split: sum.splits)
  with run have w': "w' = save_errors env c result w2"
    by (cases res) simp_all
  then have "cwd w' = cwd w2" by (simp add: save_errors_effect)
  with place have
    "resolve_path env w2 (detailed_log_path env c) = resolve_path env w (detailed_log_path env c)"
    "resolve_path env w2 (editor_log_path env c) = resolve_path env w (editor_log_path env c)"
    by (auto simp add: resolve_path_absolute intro: resolve_path_cwd)
  with w' show ?thesis
    by (simp only: save_errors_effect w2)
qed

theorem log_files_iff_diagnostics_witness:
  "fst (initialize (example_env\<lparr>GetParserMessages := Inr [example_message]\<rparr>)
          createCompilerEngine example_world) \<and>
   fst (CSProCommandLineCompiler_compile
          (example_env\<lparr>GetParserMessages := Inr [example_message]\<rparr>)
          (CSProCommandLineCompiler_new\<lparr>CLC_inputFile := ''apps/survey/app.ent'', jsonOutput := True\<rparr>)
          example_world) =
     Inr \<lparr>success = False, errorCount = 1, warningCount = 0,
          diagnostics = [\<lparr>file' = ''apps/survey/app.ent'', line = 3, column = 4,
                          message = ''bad token'', procName = [], severity = Error\<rparr>],
          compiledOutput = [], compilationTimeMs = 250\<rparr> \<and>
   cwd (snd (CSProCommandLineCompiler_compile
        (example_env\<lparr>GetParserMessages := Inr [example_message]\<rparr>)
        (CSProCommandLineCompiler_new\<lparr>CLC_inputFile := ''apps/survey/app.ent'', jsonOutput := True\<rparr>)
        example_world)) = cwd example_world \<and>
   open_attempts
     (snd (CSProCommandLineCompiler_compile
        (example_env\<lparr>GetParserMessages := Inr [example_message]\<rparr>)
        (CSProCommandLineCompiler_new\<lparr>CLC_inputFile := ''apps/survey/app.ent'', jsonOutput := True\<rparr>)
        example_world)) =
     [''/work/apps/survey/compileErrors.txt'', ''/work/apps/survey/compileErrorsFormatted.txt''] \<and>
   files
     (snd (CSProCommandLineCompiler_compile
        (example_env\<lparr>GetParserMessages := Inr [example_message]\<rparr>)
        (CSProCommandLineCompiler_new\<lparr>CLC_inputFile := ''apps/survey/app.ent'', jsonOutput := True\<rparr>)
        example_world)) ''/work/apps/survey/compileErrorsFormatted.txt'' =
     Some (''ERROR(3): bad token'' @ [CHR 0x0A])"
proof -
  let ?env = "example_env\<lparr>GetParserMessages := Inr [example_message]\<rparr>"
  let ?c = "CSProCommandLineCompiler_new\<lparr>CLC_inputFile := ''apps/survey/app.ent'', jsonOutput := True\<rparr>"
  let ?r = "\<lparr>success = False, errorCount = 1, warningCount = 0,
          diagnostics = [\<lparr>file' = ''apps/survey/app.ent'', line = 3, column = 4,
                          message = ''bad token'', procName = [], severity = Error\<rparr>],
          compiledOutput = [], compilationTimeMs = 250\<rparr>"
  have init: "fst (initialize ?env createCompilerEngine example_world)"
    by (simp add: initialize_def example_defs Let_def)
  have res: "fst (CSProCommandLineCompiler_compile ?env ?c example_world) = Inr ?r"
    by (simp add: CSProCommandLineCompiler_compile_def initialize_def announce_def compile_def
        compile_try_def translate_message_def static_cast_int_def example_message_def
        CSProCommandLineCompiler_new_def example_defs Let_def)
  then have run: "CSProCommandLineCompiler_compile ?env ?c example_world =
      (Inr ?r, snd (CSProCommandLineCompiler_compile ?env ?c example_world))"
    by (simp add: prod_eq_iff)
  have restored: "cwd (snd (CSProCommandLineCompiler_compile ?env ?c example_world)) = cwd example_world"
    by (simp add: CSProCommandLineCompiler_compile_def initialize_def announce_def compile_def
        compile_try_def save_errors_effect example_message_def
        CSProCommandLineCompiler_new_def example_defs Let_def)
  have paths: "resolve_path ?env example_world (detailed_log_path ?env ?c) =
                 ''/work/apps/survey/compileErrors.txt''"
    "resolve_path ?env example_world (editor_log_path ?env ?c) =
       ''/work/apps/survey/compileErrorsFormatted.txt''"
    by (simp_all add: resolve_path_def detailed_log_path_def editor_log_path_def example_defs
        CSProCommandLineCompiler_new_def)
  have content: "formatted_log ?r = ''ERROR(3): bad token'' @ [CHR 0x0A]"
    by (simp add: formatted_log_def formatted_record_def show_int_def show_nat.simps
        digit_char_def)
  have openable: "openable example_env p" for p
    by (simp add: example_env_def)
  have fresh: "open_attempts example_world = []"
    by (simp add: example_world_def)
  from log_files_iff_diagnostics [OF init run disjI1 [OF restored]] init res restored show ?thesis
    by (simp add: paths content openable fresh)
qed

lemma parse_arguments_append:
  "parse_arguments prog pre c w = Inr c1 \<Longrightarrow>
   parse_arguments prog (pre @ xs) c w = parse_arguments prog xs c1 w"
  by (induction prog pre c w rule: parse_arguments.induct)
     (auto split: if_splits list.splits)






text \<open>
  C9. The claim: a command line that contains \<^verbatim>\<open>-h\<close> exits with 0 whatever else
  it contains, and one that contains an unrecognized flag exits with 1. The arguments
  are examined from left to right and the first of the two ends the run.
\<close>

theorem main_help_not_independent:
  "fst (main example_env ''CSProCompile'' [''--bogus'', ''-h''] example_world) = 1 \<and>
   fst (main example_env ''CSProCompile'' [''-h'', ''--bogus''] example_world) = 0"
  by (simp add: main_def CSProCommandLineCompiler_new_def first_char_def)


text \<open>
  C9, as amended. When the arguments before it are accepted (recognized options,
  \<^verbatim>\<open>-o\<close> with its value, positional arguments), \<^verbatim>\<open>-h\<close> or \<^verbatim>\<open>--help\<close> prints
  the usage text and exits with 0, and an unrecognized flag reports
  \<^verbatim>\<open>Unknown option\<close>, prints the usage text and exits with 1, in both cases whatever
  follows. An argument taken as the value of \<^verbatim>\<open>-o\<close> is not examined.
\<close>

theorem main_help_or_unknown_first:
  assumes "parse_arguments prog pre CSProCommandLineCompiler_new w = Inr c1"
  shows "(arg = ''-h'' \<or> arg = ''--help'' \<longrightarrow>
            main env prog (pre @ arg # rest) w = (0, printUsage prog w)) \<and>
         (unrecognized_flag arg \<longrightarrow>
            main env prog (pre @ arg # rest) w =
              (1, printUsage prog (w\<lparr>cerr := cerr w @ ''Unknown option: '' @ arg @ [CHR 0x0A]\<rparr>)))"
  using parse_arguments_append [OF assms, of "arg # rest"]
  by (auto simp add: main_def unrecognized_flag_def)


theorem main_help_or_unknown_first_witness:
  "parse_arguments ''CSProCompile'' [''-v'', ''-o'', ''--bogus'', ''app.ent''] CSProCommandLineCompiler_new
       example_world =
     Inr \<lparr>CLC_inputFile = ''app.ent'', outputFile = ''--bogus'', verboseMode = True,
          checkOnly = False, jsonOutput = False\<rparr> \<and>
   main example_env ''CSProCompile'' [''-v'', ''-o'', ''--bogus'', ''app.ent'', ''--help'', ''--bogus'']
       example_world = (0, printUsage ''CSProCompile'' example_world) \<and>
   unrecognized_flag ''--bogus'' \<and>
   main example_env ''CSProCompile'' [''-v'', ''-o'', ''--bogus'', ''app.ent'', ''--bogus'', ''--help'']
       example_world =
     (1, printUsage ''CSProCompile''
           (example_world\<lparr>cerr := cerr example_world @ ''Unknown option: --bogus'' @ [CHR 0x0A]\<rparr>))"
  using main_help_or_unknown_first
    [of "''CSProCompile''" "[''-v'', ''-o'', ''--bogus'', ''app.ent'']" example_world
        "\<lparr>CLC_inputFile = ''app.ent'', outputFile = ''--bogus'', verboseMode = True,
          checkOnly = False, jsonOutput = False\<rparr>" "''--help''" example_env "[''--bogus'']"]
    main_help_or_unknown_first
    [of "''CSProCompile''" "[''-v'', ''-o'', ''--bogus'', ''app.ent'']" example_world
        "\<lparr>CLC_inputFile = ''app.ent'', outputFile = ''--bogus'', verboseMode = True,
          checkOnly = False, jsonOutput = False\<rparr>" "''--bogus''" example_env "[''--help'']"]
  by (simp add: CSProCommandLineCompiler_new_def unrecognized_flag_def first_char_def)



section \<open>Properties of the JSON renderer\<close>

subsection \<open>Decimal digits\<close>

lemma less_10_cases:
  "d < 10 \<Longrightarrow> d = 0 \<or> d = 1 \<or> d = 2 \<or> d = 3 \<or> d = 4 \<or> d = 5 \<or> d = 6 \<or> d = 7 \<or> d = 8 \<or> d = (9::nat)"
  by arith

lemma digit_char_is_digit: "d < 10 \<Longrightarrow> is_digit (digit_char d)"
  by (drule less_10_cases) (auto simp add: is_digit_def digit_char_def)

lemma digit_char_zero: "d < 10 \<Longrightarrow> digit_char d = CHR ''0'' \<Longrightarrow> d = 0"
  by (drule less_10_cases) (auto simp add: digit_char_def)

lemma show_nat_digits: "list_all is_digit (show_nat n)"
  by (induction n rule: show_nat.induct)
     (subst show_nat.simps, simp add: digit_char_is_digit)

lemma show_nat_nonempty: "show_nat n \<noteq> []"
  by (subst show_nat.simps) simp

lemma show_nat_leading_zero: "hd (show_nat n) = CHR ''0'' \<Longrightarrow> n = 0"
proof (induction n rule: show_nat.induct)
  case (1 n)
  show ?case
  proof (cases "n < 10")
    case True
    with "1.prems" show ?thesis
      by (subst (asm) show_nat.simps) (simp add: digit_char_zero)
  next
    case False
    with "1.prems" have "hd (show_nat (n div 10)) = CHR ''0''"
      by (subst (asm) show_nat.simps) (simp add: show_nat_nonempty)
    with "1.IH" False have "n div 10 = 0" by simp
    with False show ?thesis by simp
  qed
qed

lemma show_nat_0: "show_nat 0 = ''0''"
  by (subst show_nat.simps) (simp add: digit_char_def)

subsection \<open>Numbers\<close>

lemma takeWhile_stop: "\<not> P c \<Longrightarrow> takeWhile P (xs @ c # rest) = takeWhile P xs"
  by (induction xs) simp_all

lemma dropWhile_stop: "\<not> P c \<Longrightarrow> dropWhile P (xs @ c # rest) = dropWhile P xs @ c # rest"
  by (induction xs) simp_all

lemma parse_digits_extend:
  assumes "parse_digits s = Some (a, b)" "\<not> is_digit c"
  shows "parse_digits (s @ c # rest) = Some (a, b @ c # rest)"
  using assms
  by (auto simp add: parse_digits_def takeWhile_stop dropWhile_stop split: if_splits)

lemma parse_fraction_extend:
  assumes "parse_fraction s = Some (a, b)" "\<not> is_digit c" "c \<noteq> CHR ''.''"
  shows "parse_fraction (s @ c # rest) = Some (a, b @ c # rest)"
  using assms
  by (cases s) (auto simp add: parse_fraction_def parse_digits_extend split: if_splits)

lemma parse_exponent_extend:
  assumes "parse_exponent s = Some (a, b)" "\<not> is_digit c" "c \<noteq> CHR ''e''" "c \<noteq> CHR ''E''"
  shows "parse_exponent (s @ c # rest) = Some (a, b @ c # rest)"
proof (cases s)
  case Nil
  with assms show ?thesis by (simp add: parse_exponent_def)
next
  case (Cons x r)
  show ?thesis
  proof (cases r)
    case Nil
    with assms Cons show ?thesis by (auto simp add: parse_exponent_def split: if_splits)
  next
    case (Cons g r')
    with assms \<open>s = x # r\<close> show ?thesis
      using parse_digits_extend [of r' _ _ c rest] parse_digits_extend [of "g # r'" _ _ c rest]
      by (auto simp add: parse_exponent_def split: if_splits)
  qed
qed

lemma parse_unsigned_extend:
  assumes "parse_unsigned s = Some (a, b)" "\<not> is_digit c" "c \<noteq> CHR ''.''"
    "c \<noteq> CHR ''e''" "c \<noteq> CHR ''E''"
  shows "parse_unsigned (s @ c # rest) = Some (a, b @ c # rest)"
proof -
  from assms(1) obtain ip s1 fp s2 ep where
    d: "parse_digits s = Some (ip, s1)"
    and z: "\<not> (hd ip = CHR ''0'' \<and> length ip > 1)"
    and f: "parse_fraction s1 = Some (fp, s2)"
    and e: "parse_exponent s2 = Some (ep, b)"
    and a: "a = ip @ fp @ ep"
    by (auto simp add: parse_unsigned_def split: option.splits if_splits)
  show ?thesis
    using z a
    by (simp add: parse_unsigned_def parse_digits_extend [OF d assms(2)]
        parse_fraction_extend [OF f assms(2,3)] parse_exponent_extend [OF e assms(2,4,5)])
qed

lemma parse_number_extend:
  assumes "parse_number s = Some (a, b)" "\<not> is_digit c" "c \<noteq> CHR ''.''"
    "c \<noteq> CHR ''e''" "c \<noteq> CHR ''E''"
  shows "parse_number (s @ c # rest) = Some (a, b @ c # rest)"
proof (cases s)
  case Nil
  with assms show ?thesis by (simp add: parse_number_def)
next
  case (Cons x r)
  show ?thesis
  proof (cases "x = CHR ''-''")
    case True
    with assms(1) Cons obtain n where n: "parse_unsigned r = Some (n, b)" and a: "a = x # n"
      by (auto simp add: parse_number_def)
    from parse_unsigned_extend [OF n assms(2-5)] True Cons a show ?thesis
      by (simp add: parse_number_def)
  next
    case False
    with assms(1) Cons have "parse_unsigned (x # r) = Some (a, b)"
      by (simp add: parse_number_def)
    from parse_unsigned_extend [OF this assms(2-5)] False Cons show ?thesis
      by (simp add: parse_number_def)
  qed
qed

lemma parse_digits_first: "parse_digits s = Some (a, b) \<Longrightarrow> \<exists>x r. s = x # r \<and> is_digit x"
  by (cases s) (auto simp add: parse_digits_def split: if_splits)

lemma is_json_number_first:
  assumes "is_json_number t"
  shows "\<exists>x r. t = x # r \<and> (x = CHR ''-'' \<or> is_digit x)"
proof (cases t)
  case Nil
  with assms show ?thesis by (simp add: is_json_number_def parse_number_def)
next
  case (Cons x r)
  show ?thesis
  proof (cases "x = CHR ''-''")
    case True
    with Cons show ?thesis by simp
  next
    case False
    with assms Cons obtain ip s1 where "parse_digits (x # r) = Some (ip, s1)"
      by (auto simp add: is_json_number_def parse_number_def parse_unsigned_def
          split: option.splits)
    from parse_digits_first [OF this] Cons show ?thesis by simp
  qed
qed

lemma parse_unsigned_show_nat: "parse_unsigned (show_nat n) = Some (show_nat n, [])"
proof -
  have d: "list_all is_digit (show_nat n)" by (rule show_nat_digits)
  then have tw: "takeWhile is_digit (show_nat n) = show_nat n"
    and dw: "dropWhile is_digit (show_nat n) = []"
    by (simp_all add: list_all_iff)
  have lz: "\<not> (hd (show_nat n) = CHR ''0'' \<and> length (show_nat n) > 1)"
    using show_nat_leading_zero [of n] show_nat_0 by auto
  have "parse_digits (show_nat n) = Some (show_nat n, [])"
    by (simp add: parse_digits_def tw dw show_nat_nonempty)
  with lz show ?thesis
    by (simp add: parse_unsigned_def parse_fraction_def parse_exponent_def)
qed

lemma show_nat_not_minus: "show_nat n = x # r \<Longrightarrow> x \<noteq> CHR ''-''"
  using show_nat_digits [of n] by (auto simp add: is_digit_def)

lemma is_json_number_show_int: "is_json_number (show_int i)"
proof (cases "i < 0")
  case False
  obtain x r where xr: "show_nat (nat i) = x # r"
    using show_nat_nonempty [of "nat i"] by (cases "show_nat (nat i)") auto
  with parse_unsigned_show_nat [of "nat i"] show_nat_not_minus [OF xr] False show ?thesis
    by (simp add: is_json_number_def show_int_def parse_number_def)
next
  case True
  with parse_unsigned_show_nat [of "nat (- i)"] show ?thesis
    by (simp add: is_json_number_def show_int_def parse_number_def)
qed

subsection \<open>Strings\<close>

lemma parse_chars_plain:
  "json_plain k \<Longrightarrow> parse_chars (k @ CHR 0x22 # rest) = Some (k, rest)"
  by (induction k) (simp_all add: json_plain_def)


subsection \<open>Single steps of the parser\<close>

lemma skip_ws_ws: "list_all is_ws ind \<Longrightarrow> skip_ws (ind @ s) = skip_ws s"
  by (induction ind) (simp_all add: skip_ws_def)

lemma skip_ws_stop: "\<not> is_ws c \<Longrightarrow> skip_ws (c # s) = c # s"
  by (simp add: skip_ws_def)

lemma parse_value_ws: "list_all is_ws ind \<Longrightarrow> parse_value (ind @ s) = parse_value s"
  by (simp add: parse_value.simps [of "ind @ s"] parse_value.simps [of s] skip_ws_ws)

lemma parse_value_string:
  "json_plain x \<Longrightarrow> parse_value (CHR 0x22 # x @ CHR 0x22 # tail) = Some (JString x, tail)"
  by (simp add: parse_value.simps [of "CHR 0x22 # x @ CHR 0x22 # tail"] skip_ws_stop is_ws_def
      parse_chars_plain)

lemma parse_value_true: "parse_value (''true'' @ tail) = Some (JBool True, tail)"
  by (simp add: parse_value.simps [of "CHR ''t'' # CHR ''r'' # CHR ''u'' # CHR ''e'' # tail"] skip_ws_stop is_ws_def)

lemma parse_value_false: "parse_value (''false'' @ tail) = Some (JBool False, tail)"
  by (simp add: parse_value.simps [of "CHR ''f'' # CHR ''a'' # CHR ''l'' # CHR ''s'' # CHR ''e'' # tail"] skip_ws_stop is_ws_def)

lemma parse_value_number:
  assumes "is_json_number t" "\<not> is_digit c" "c \<noteq> CHR ''.''" "c \<noteq> CHR ''e''" "c \<noteq> CHR ''E''"
  shows "parse_value (t @ c # tail) = Some (JNumber t, c # tail)"
proof -
  from is_json_number_first [OF assms(1)] obtain x r where
    t: "t = x # r" and x: "x = CHR ''-'' \<or> is_digit x" by blast
  from x have nw: "\<not> is_ws x" and nb: "x \<noteq> CHR ''[''" "x \<noteq> CHR ''{''" "x \<noteq> CHR 0x22"
    "x \<noteq> CHR ''t''" "x \<noteq> CHR ''f''" "x \<noteq> CHR ''n''"
    by (auto simp add: is_ws_def is_digit_def)
  from assms have "parse_number (t @ c # tail) = Some (t, c # tail)"
    using parse_number_extend [of t t "[]" c tail] by (simp add: is_json_number_def)
  with nw nb show ?thesis
    by (simp add: parse_value.simps [of "x # r @ c # tail"] t skip_ws_stop)
qed

lemma parse_value_object:
  assumes "skip_ws s = CHR ''{'' # r" "skip_ws r = c1 # r1" "c1 \<noteq> CHR ''}''"
    "parse_members r = Some (ms, r2)"
  shows "parse_value s = Some (JObject ms, r2)"
  using assms by (simp add: parse_value.simps [of s])

lemma parse_value_array:
  assumes "skip_ws s = CHR ''['' # r" "skip_ws r = c1 # r1" "c1 \<noteq> CHR '']''"
    "parse_elements r = Some (vs, r2)"
  shows "parse_value s = Some (JArray vs, r2)"
  using assms by (simp add: parse_value.simps [of s])

lemma parse_value_empty_array:
  assumes "skip_ws s = CHR ''['' # r" "skip_ws r = CHR '']'' # r1"
  shows "parse_value s = Some (JArray [], r1)"
  using assms by (simp add: parse_value.simps [of s])

lemma parse_elements_more:
  assumes "parse_value s = Some (v, r)" "length r < length s" "skip_ws r = CHR '','' # r1"
    "parse_elements r1 = Some (vs, r2)"
  shows "parse_elements s = Some (v # vs, r2)"
  using assms by (simp add: parse_elements.simps [of s])

lemma parse_elements_last:
  assumes "parse_value s = Some (v, r)" "length r < length s" "skip_ws r = CHR '']'' # r1"
  shows "parse_elements s = Some ([v], r1)"
  using assms by (simp add: parse_elements.simps [of s])

lemma member_more:
  assumes "list_all is_ws ind" "json_plain key"
    and "parse_value (vt @ CHR '','' # rest) = Some (v, CHR '','' # rest)"
    and "parse_members rest = Some (ms, r5)"
  shows "parse_members (ind @ CHR 0x22 # key @ CHR 0x22 # CHR '':'' # CHR '' '' # vt @ CHR '','' # rest)
         = Some ((key, v) # ms, r5)"
proof -
  have "parse_value (CHR '' '' # vt @ CHR '','' # rest) = Some (v, CHR '','' # rest)"
    using parse_value_ws [of "[CHR '' '']" "vt @ CHR '','' # rest"] assms(3)
    by (simp add: is_ws_def)
  then show ?thesis
    using assms(1,2,4)
    by (simp add: parse_members.simps
          [of "ind @ CHR 0x22 # key @ CHR 0x22 # CHR '':'' # CHR '' '' # vt @ CHR '','' # rest"]
          skip_ws_ws skip_ws_stop is_ws_def parse_chars_plain)
qed

lemma member_last:
  assumes "list_all is_ws ind" "json_plain key"
    and "parse_value (vt @ tail) = Some (v, tail)"
    and "skip_ws tail = CHR ''}'' # r4"
  shows "parse_members (ind @ CHR 0x22 # key @ CHR 0x22 # CHR '':'' # CHR '' '' # vt @ tail)
         = Some ([(key, v)], r4)"
proof -
  have "parse_value (CHR '' '' # vt @ tail) = Some (v, tail)"
    using parse_value_ws [of "[CHR '' '']" "vt @ tail"] assms(3)
    by (simp add: is_ws_def)
  then show ?thesis
    using assms(1,2,4)
    by (simp add: parse_members.simps
          [of "ind @ CHR 0x22 # key @ CHR 0x22 # CHR '':'' # CHR '' '' # vt @ tail"]
          skip_ws_ws skip_ws_stop is_ws_def parse_chars_plain)
qed


subsection \<open>The parser consumes what it parses\<close>

text \<open>
  A parsed number, value, element list or member list is never empty, so the tests on
  the lengths in \<open>parse_elements\<close> and \<open>parse_members\<close> never fail.
\<close>

lemma parse_digits_shorter: "parse_digits s = Some (a, b) \<Longrightarrow> length b < length s"
  by (cases s) (auto simp add: parse_digits_def less_Suc_eq_le length_dropWhile_le split: if_splits)

lemma parse_fraction_shorter: "parse_fraction s = Some (a, b) \<Longrightarrow> length b \<le> length s"
  by (cases s) (auto simp add: parse_fraction_def split: if_splits dest!: parse_digits_shorter)

lemma parse_exponent_shorter: "parse_exponent s = Some (a, b) \<Longrightarrow> length b \<le> length s"
  by (cases s)
     (auto simp add: parse_exponent_def split: if_splits list.splits dest!: parse_digits_shorter)

lemma parse_unsigned_shorter: "parse_unsigned s = Some (a, b) \<Longrightarrow> length b < length s"
  by (auto simp add: parse_unsigned_def split: option.splits if_splits
      dest!: parse_digits_shorter parse_fraction_shorter parse_exponent_shorter)

lemma parse_number_shorter: "parse_number s = Some (a, b) \<Longrightarrow> length b < length s"
  by (cases s) (auto simp add: parse_number_def split: if_splits dest!: parse_unsigned_shorter)

lemma parse_shorter:
  "(\<forall>v r. parse_value s = Some (v, r) \<longrightarrow> length r < length s)"
  "(\<forall>vs r. parse_elements s1 = Some (vs, r) \<longrightarrow> length r < length s1)"
  "(\<forall>ms r. parse_members s2 = Some (ms, r) \<longrightarrow> length r < length s2)"
proof (induction s and s1 and s2 rule: parse_value_parse_elements_parse_members.induct)
  case (1 s)
  show ?case
  proof (intro allI impI)
    fix v r assume a: "parse_value s = Some (v, r)"
    then obtain c t where c: "skip_ws s = c # t"
      by (cases "skip_ws s") (auto simp add: parse_value.simps [of s])
    then have t: "length t < length s" by (rule skip_ws_Cons_length)
    have n: "length (c # t) \<le> length s"
      using length_skip_ws [of s] c by simp
    show "length r < length s"
    proof (cases "c = CHR ''[''")
      case True
      from a c True obtain c1 r1 where c1: "skip_ws t = c1 # r1"
        by (cases "skip_ws t") (auto simp add: parse_value.simps [of s])
      show ?thesis
      proof (cases "c1 = CHR '']''")
        case True
        with a c \<open>c = CHR ''[''\<close> c1 have "r = r1"
          by (simp add: parse_value.simps [of s])
        with skip_ws_Cons_length [OF c1] t show ?thesis by simp
      next
        case False
        with a c \<open>c = CHR ''[''\<close> c1 obtain vs where "parse_elements t = Some (vs, r)"
          by (auto simp add: parse_value.simps [of s])
        with "1.IH"(1) [OF c True c1 False] t show ?thesis by auto
      qed
    next
      case nb: False
      show ?thesis
      proof (cases "c = CHR ''{''")
        case True
        from a c True obtain c1 r1 where c1: "skip_ws t = c1 # r1"
          by (cases "skip_ws t") (auto simp add: parse_value.simps [of s])
        show ?thesis
        proof (cases "c1 = CHR ''}''")
          case True
          with a c \<open>c = CHR ''{''\<close> c1 have "r = r1"
            by (simp add: parse_value.simps [of s])
          with skip_ws_Cons_length [OF c1] t show ?thesis by simp
        next
          case False
          with a c \<open>c = CHR ''{''\<close> c1 obtain ms where "parse_members t = Some (ms, r)"
            by (auto simp add: parse_value.simps [of s])
          with "1.IH"(2) [OF c nb True c1 False] t show ?thesis by auto
        qed
      next
        case no: False
        show ?thesis
        proof (cases "c = CHR 0x22")
          case True
          with a c obtain k where "parse_chars t = Some (k, r)"
            by (auto simp add: parse_value.simps [of s])
          from parse_chars_length [OF this] t show ?thesis by simp
        next
          case nq: False
          from a c nb no nq have
            "r = drop 4 (c # t) \<or> r = drop 5 (c # t) \<or>
             (\<exists>k. parse_number (c # t) = Some (k, r))"
            unfolding parse_value.simps [of s]
            by (simp only: list.case if_False option.inject prod.inject split: if_splits)
               (auto)
          moreover have "length (drop 4 (c # t)) < length s" "length (drop 5 (c # t)) < length s"
            using t by simp_all
          moreover have "parse_number (c # t) = Some (k, r) \<Longrightarrow> length r < length s" for k
            using parse_number_shorter [of "c # t" k r] n by simp
          ultimately show ?thesis by blast
        qed
      qed
    qed
  qed
next
  case (2 s)
  show ?case
  proof (intro allI impI)
    fix vs r assume a: "parse_elements s = Some (vs, r)"
    then obtain v r0 where v: "parse_value s = Some (v, r0)"
      by (cases "parse_value s") (auto simp add: parse_elements.simps [of s])
    with a have g: "length r0 < length s"
      by (simp add: parse_elements.simps [of s] split: if_splits)
    with a v obtain c r1 where c: "skip_ws r0 = c # r1"
      by (cases "skip_ws r0") (auto simp add: parse_elements.simps [of s])
    have r1: "length r1 < length r0" by (rule skip_ws_Cons_length [OF c])
    show "length r < length s"
    proof (cases "c = CHR '',''")
      case True
      with a v g c obtain vs' where e: "parse_elements r1 = Some (vs', r)"
        by (cases "parse_elements r1") (auto simp add: parse_elements.simps [of s])
      from "2.IH"(2) [OF v refl g c True] e have "length r < length r1" by simp
      with r1 g show ?thesis by simp
    next
      case False
      with a v g c have "r = r1"
        by (simp add: parse_elements.simps [of s] split: if_splits)
      with r1 g show ?thesis by simp
    qed
  qed
next
  case (3 s)
  show ?case
  proof (intro allI impI)
    fix ms r assume a: "parse_members s = Some (ms, r)"
    then obtain c t where c: "skip_ws s = c # t"
      by (cases "skip_ws s") (auto simp add: parse_members.simps [of s])
    with a have q: "c = CHR 0x22"
      by (simp add: parse_members.simps [of s] split: if_splits)
    with a c obtain k r1 where k: "parse_chars t = Some (k, r1)"
      by (cases "parse_chars t") (auto simp add: parse_members.simps [of s])
    with a c q obtain c1 r2 where c1: "skip_ws r1 = c1 # r2"
      by (cases "skip_ws r1") (auto simp add: parse_members.simps [of s])
    with a c q k have colon: "c1 = CHR '':''"
      by (simp add: parse_members.simps [of s] split: if_splits)
    with a c q k c1 obtain v r3 where v: "parse_value r2 = Some (v, r3)"
      by (cases "parse_value r2") (auto simp add: parse_members.simps [of s])
    with a c q k c1 colon have g: "length r3 < length s"
      by (simp add: parse_members.simps [of s] split: if_splits)
    with a c q k c1 colon v obtain c3 r4 where c3: "skip_ws r3 = c3 # r4"
      by (cases "skip_ws r3") (auto simp add: parse_members.simps [of s])
    have r4: "length r4 < length r3" by (rule skip_ws_Cons_length [OF c3])
    show "length r < length s"
    proof (cases "c3 = CHR '',''")
      case True
      with a c q k c1 colon v g c3 obtain ms' where e: "parse_members r4 = Some (ms', r)"
        by (cases "parse_members r4") (auto simp add: parse_members.simps [of s])
      from "3.IH"(2) [OF c q k refl c1 colon v refl g c3 True] e have "length r < length r4"
        by simp
      with r4 g show ?thesis by simp
    next
      case False
      with a c q k c1 colon v g c3 have "r = r4"
        by (simp add: parse_members.simps [of s] split: if_splits)
      with r4 g show ?thesis by simp
    qed
  qed
qed

subsection \<open>The emitted text\<close>

lemma entries_text_Cons:
  "entries_text (d # ds) =
     entry_text d @ (if ds = [] then [] else '','') @ [CHR 0x0A] @ entries_text ds"
  by (cases ds) simp_all

lemma json_entry_eq:
  "i < length ds \<Longrightarrow>
   json_entry ds i out =
     out @ entry_text (ds ! i) @ (if drop (Suc i) ds = [] then [] else '','') @ [CHR 0x0A]"
  by (auto simp add: json_entry_def entry_text_def Let_def)

lemma json_entries_eq: "json_entries ds i out = out @ entries_text (drop i ds)"
proof (induction ds i out rule: json_entries.induct)
  case (1 ds i out)
  show ?case
  proof (cases "i < length ds")
    case False
    then show ?thesis by (subst json_entries.simps) simp
  next
    case True
    have "json_entries ds i out = json_entries ds (Suc i) (json_entry ds i out)"
      using True by (subst json_entries.simps) simp
    also have "\<dots> = json_entry ds i out @ entries_text (drop (Suc i) ds)"
      using "1.IH" True by simp
    also have "\<dots> = out @ entries_text (ds ! i # drop (Suc i) ds)"
      using True by (simp add: json_entry_eq entries_text_Cons)
    finally show ?thesis
      using True by (simp add: Cons_nth_drop_Suc)
  qed
qed

lemma json_text_eq:
  "json_text env result =
     ''{'' @ [CHR 0x0A] @
     ''  \"success\": '' @ (if success result then ''true'' else ''false'') @ '','' @ [CHR 0x0A] @
     ''  \"compilationTime\": '' @ show_double env (compilationTimeMs result / 1000) @ '','' @
       [CHR 0x0A] @
     ''  \"errors\": ['' @ [CHR 0x0A] @ entries_text (diagnostics result) @
     ''  ]'' @ [CHR 0x0A] @ ''}'' @ [CHR 0x0A]"
  by (simp add: json_text_def json_entries_eq)

lemma comma_stops: "\<not> is_digit (CHR '','')" "\<not> is_ws (CHR '','')"
  by (simp_all add: is_digit_def is_ws_def)

lemma parse_entry:
  assumes "json_plain (file' d)" "json_plain (message d)"
  shows "parse_value (entry_text d @ tail) = Some (json_of_diagnostic d, tail)"
proof -
  define sev where "sev = (if severity d = Error then ''error'' else ''warning'')"
  have sev: "json_plain sev" by (simp add: sev_def json_plain_def)
  define t5 where "t5 = [CHR 0x0A] @ ''    }'' @ tail"
  define m5 where "m5 = [CHR 0x0A] @ ''      \"severity\": \"'' @ sev @ ''\"'' @ t5"
  define m4 where "m4 = [CHR 0x0A] @ ''      \"message\": \"'' @ message d @ ''\",'' @ m5"
  define m3 where "m3 = [CHR 0x0A] @ ''      \"column\": '' @ show_int (column d) @ '','' @ m4"
  define m2 where "m2 = [CHR 0x0A] @ ''      \"line\": '' @ show_int (line d) @ '','' @ m3"
  define m1 where "m1 = [CHR 0x0A] @ ''      \"file\": \"'' @ file' d @ ''\",'' @ m2"
  have p5: "parse_members m5 = Some ([(''severity'', JString sev)], tail)"
    using member_last [of "[CHR 0x0A] @ ''      ''" "''severity''" "CHR 0x22 # sev @ [CHR 0x22]" t5
                          "JString sev" tail]
      parse_value_string [OF sev, of t5]
    by (simp add: m5_def is_ws_def json_plain_def) (simp add: t5_def skip_ws_def is_ws_def)
  have p4: "parse_members m4 =
      Some ([(''message'', JString (message d)), (''severity'', JString sev)], tail)"
    using member_more [of "[CHR 0x0A] @ ''      ''" "''message''"
                          "CHR 0x22 # message d @ [CHR 0x22]" m5 "JString (message d)", OF _ _ _ p5]
      parse_value_string [OF assms(2), of "CHR '','' # m5"]
    by (simp add: m4_def is_ws_def json_plain_def)
  have p3: "parse_members m3 =
      Some ([(''column'', JNumber (show_int (column d))), (''message'', JString (message d)),
             (''severity'', JString sev)], tail)"
    using member_more [of "[CHR 0x0A] @ ''      ''" "''column''" "show_int (column d)" m4
                          "JNumber (show_int (column d))", OF _ _ _ p4]
      parse_value_number [OF is_json_number_show_int, of "CHR '',''" "column d" m4]
    by (simp add: m3_def is_ws_def json_plain_def is_digit_def)
  have p2: "parse_members m2 =
      Some ([(''line'', JNumber (show_int (line d))), (''column'', JNumber (show_int (column d))),
             (''message'', JString (message d)), (''severity'', JString sev)], tail)"
    using member_more [of "[CHR 0x0A] @ ''      ''" "''line''" "show_int (line d)" m3
                          "JNumber (show_int (line d))", OF _ _ _ p3]
      parse_value_number [OF is_json_number_show_int, of "CHR '',''" "line d" m3]
    by (simp add: m2_def is_ws_def json_plain_def is_digit_def)
  have p1: "parse_members m1 =
      Some ([(''file'', JString (file' d)), (''line'', JNumber (show_int (line d))),
             (''column'', JNumber (show_int (column d))),
             (''message'', JString (message d)), (''severity'', JString sev)], tail)"
    using member_more [of "[CHR 0x0A] @ ''      ''" "''file''"
                          "CHR 0x22 # file' d @ [CHR 0x22]" m2 "JString (file' d)", OF _ _ _ p2]
      parse_value_string [OF assms(1), of "CHR '','' # m2"]
    by (simp add: m1_def is_ws_def json_plain_def)
  have e: "entry_text d @ tail = ''    {'' @ m1"
    by (simp add: entry_text_def m1_def m2_def m3_def m4_def m5_def t5_def sev_def)
  have "parse_value (''    {'' @ m1) = Some (JObject
          [(''file'', JString (file' d)), (''line'', JNumber (show_int (line d))),
           (''column'', JNumber (show_int (column d))),
           (''message'', JString (message d)), (''severity'', JString sev)], tail)"
    using parse_value_object [of "''    {'' @ m1" m1 "CHR 0x22" _ _ tail, OF _ _ _ p1]
    by (simp add: skip_ws_def is_ws_def) (simp add: m1_def skip_ws_def is_ws_def)
  then show ?thesis
    by (simp only: e json_of_diagnostic_def sev_def)
qed


lemma parse_entries:
  assumes "list_all (\<lambda>d. json_plain (file' d) \<and> json_plain (message d)) ds" "ds \<noteq> []"
  shows "parse_elements ([CHR 0x0A] @ entries_text ds @ ''  ]'' @ tail)
         = Some (map json_of_diagnostic ds, tail)"
  using assms
proof (induction ds)
  case Nil
  then show ?case by simp
next
  case (Cons d ds)
  then have d: "json_plain (file' d)" "json_plain (message d)" by simp_all
  show ?case
  proof (cases "ds = []")
    case True
    define r where "r = [CHR 0x0A] @ ''  ]'' @ tail"
    have v: "parse_value ([CHR 0x0A] @ entry_text d @ r) = Some (json_of_diagnostic d, r)"
      using parse_value_ws [of "[CHR 0x0A]" "entry_text d @ r"] parse_entry [OF d, of r]
      by (simp add: is_ws_def)
    have "parse_elements ([CHR 0x0A] @ entry_text d @ r) = Some ([json_of_diagnostic d], tail)"
      by (rule parse_elements_last [OF v]) (simp_all add: r_def skip_ws_def is_ws_def)
    with True show ?thesis by (simp add: r_def)
  next
    case False
    define r1 where "r1 = [CHR 0x0A] @ entries_text ds @ ''  ]'' @ tail"
    define r where "r = CHR '','' # r1"
    from Cons False have ih: "parse_elements r1 = Some (map json_of_diagnostic ds, tail)"
      by (simp add: r1_def)
    have v: "parse_value ([CHR 0x0A] @ entry_text d @ r) = Some (json_of_diagnostic d, r)"
      using parse_value_ws [of "[CHR 0x0A]" "entry_text d @ r"] parse_entry [OF d, of r]
      by (simp add: is_ws_def)
    have "parse_elements ([CHR 0x0A] @ entry_text d @ r) =
            Some (json_of_diagnostic d # map json_of_diagnostic ds, tail)"
      by (rule parse_elements_more [OF v _ _ ih]) (simp_all add: r_def skip_ws_def is_ws_def)
    with False show ?thesis by (simp add: r_def r1_def entries_text_Cons)
  qed
qed

lemma parse_errors_array:
  assumes "list_all (\<lambda>d. json_plain (file' d) \<and> json_plain (message d)) ds"
  shows "parse_value (''['' @ [CHR 0x0A] @ entries_text ds @ ''  ]'' @ tail)
         = Some (JArray (map json_of_diagnostic ds), tail)"
proof (cases "ds = []")
  case True
  then show ?thesis
    using parse_value_empty_array
      [of "''['' @ [CHR 0x0A] @ ''  ]'' @ tail" "[CHR 0x0A] @ ''  ]'' @ tail" tail]
    by (simp add: skip_ws_def is_ws_def)
next
  case False
  then obtain d ds' where ds: "ds = d # ds'" by (cases ds) auto
  have open_brace: "skip_ws ([CHR 0x0A] @ entries_text ds @ ''  ]'' @ tail) =
      CHR ''{'' # drop 5 (entry_text d) @ (if ds' = [] then [] else '','') @ [CHR 0x0A] @
        entries_text ds' @ ''  ]'' @ tail"
    by (simp add: ds entries_text_Cons entry_text_def skip_ws_def is_ws_def)
  show ?thesis
    by (rule parse_value_array [OF _ open_brace _ parse_entries [OF assms False]])
       (simp_all add: skip_ws_def is_ws_def)
qed

text \<open>
  On text that needs no escaping the renderer writes JSON: when every \<^verbatim>\<open>file\<close> and
  \<^verbatim>\<open>message\<close> of the result is printable ASCII without double quote and backslash,
  and the stream prints the time as a JSON number, the emitted text parses to an object
  with \<^verbatim>\<open>success\<close>, \<^verbatim>\<open>compilationTime\<close> and, in \<^verbatim>\<open>errors\<close>, one object per
  diagnostic, in the order of the diagnostics; the severity text is \<^verbatim>\<open>error\<close> for
  \<open>Error\<close> and \<^verbatim>\<open>warning\<close> for anything else.
\<close>

lemma json_round_trip_plain:
  assumes "list_all (\<lambda>d. json_plain (file' d) \<and> json_plain (message d)) (diagnostics result)"
    and "is_json_number (show_double env (compilationTimeMs result / 1000))"
  shows "parse_json (json_text env result) = Some (json_of_result env result) \<and>
         Option.bind (parse_json (json_text env result)) reported_severities =
           Some (map (\<lambda>d. Some (JString (if severity d = Error then ''error'' else ''warning'')))
                   (diagnostics result))"
proof -
  define b where "b = (if success result then ''true'' else ''false'')"
  define t where "t = show_double env (compilationTimeMs result / 1000)"
  define arr where "arr = ''['' @ [CHR 0x0A] @ entries_text (diagnostics result) @ ''  ]''"
  define t3 where "t3 = [CHR 0x0A] @ ''}'' @ [CHR 0x0A]"
  define m3 where "m3 = [CHR 0x0A] @ ''  \"errors\": '' @ arr @ t3"
  define m2 where "m2 = [CHR 0x0A] @ ''  \"compilationTime\": '' @ t @ '','' @ m3"
  define m1 where "m1 = [CHR 0x0A] @ ''  \"success\": '' @ b @ '','' @ m2"
  have vb: "parse_value (b @ tail) = Some (JBool (success result), tail)" for tail
    using parse_value_true [of tail] parse_value_false [of tail] by (simp add: b_def)
  have va: "parse_value (arr @ t3) = Some (JArray (map json_of_diagnostic (diagnostics result)), t3)"
    using parse_errors_array [OF assms(1), of t3] by (simp add: arr_def)
  have p3: "parse_members m3 =
      Some ([(''errors'', JArray (map json_of_diagnostic (diagnostics result)))], [CHR 0x0A])"
    using member_last [of "[CHR 0x0A] @ ''  ''" "''errors''" arr t3 _ "[CHR 0x0A]", OF _ _ va]
    by (simp add: m3_def is_ws_def json_plain_def) (simp add: t3_def skip_ws_def is_ws_def)
  have p2: "parse_members m2 =
      Some ([(''compilationTime'', JNumber t),
             (''errors'', JArray (map json_of_diagnostic (diagnostics result)))], [CHR 0x0A])"
    using member_more [of "[CHR 0x0A] @ ''  ''" "''compilationTime''" t m3 "JNumber t", OF _ _ _ p3]
      parse_value_number [of t "CHR '',''" m3] assms(2)
    by (simp add: m2_def is_ws_def json_plain_def is_digit_def t_def)
  have p1: "parse_members m1 =
      Some ([(''success'', JBool (success result)), (''compilationTime'', JNumber t),
             (''errors'', JArray (map json_of_diagnostic (diagnostics result)))], [CHR 0x0A])"
    using member_more [of "[CHR 0x0A] @ ''  ''" "''success''" b m2 "JBool (success result)",
                       OF _ _ vb p2]
    by (simp add: m1_def is_ws_def json_plain_def)
  have e: "json_text env result = ''{'' @ m1"
    by (simp add: json_text_eq m1_def m2_def m3_def t3_def arr_def b_def t_def)
  have "parse_value (''{'' @ m1) = Some (json_of_result env result, [CHR 0x0A])"
    using parse_value_object [of "''{'' @ m1" m1 "CHR 0x22" _ _ "[CHR 0x0A]", OF _ _ _ p1]
    by (simp add: skip_ws_def is_ws_def json_of_result_def t_def)
       (simp add: m1_def skip_ws_def is_ws_def)
  then have "parse_json (json_text env result) = Some (json_of_result env result)"
    by (simp add: parse_json_def e skip_ws_def is_ws_def)
  moreover have "reported_severities (json_of_result env result) =
           Some (map (\<lambda>d. Some (JString (if severity d = Error then ''error'' else ''warning'')))
                   (diagnostics result))"
    by (simp add: reported_severities_def json_member_def json_of_result_def
        json_of_diagnostic_def)
  ultimately show ?thesis by simp
qed

lemma show_nat_small: "show_nat 0 = ''0''" "show_nat 3 = ''3''" "show_nat 4 = ''4''"
  by (simp_all add: show_nat.simps digit_char_def)

text \<open>
  C7. The claim: for every result, parsing the text that the JSON renderer emits gives
  back the number of error and of warning entries, their order and their severities.
  \<^verbatim>\<open>outputJson\<close> writes what the usage text calls JSON, and does write JSON for plain
  text (\<open>json_round_trip_plain\<close>), but it prints \<^verbatim>\<open>file\<close> and \<^verbatim>\<open>message\<close> between
  double quotes without escaping anything. Evaluated here: a message that quotes a word
  and a file path with backslashes each give text that is not JSON. Beside that, a
  diagnostic of severity \<open>Info\<close>, which \<^verbatim>\<open>getSeverityString\<close> names \<^verbatim>\<open>info\<close>, is
  printed as \<^verbatim>\<open>warning\<close>: the result has no warning and the report has one.
\<close>

theorem json_unescaped_quote:
  "parse_json (json_text example_env quoting_result) = None \<and>
   parse_json (json_text example_env backslash_result) = None \<and>
   getSeverityString info_diagnostic = ''info'' \<and>
   count_severity Warning (diagnostics info_result) = 0 \<and>
   Option.bind (parse_json (json_text example_env info_result)) reported_severities =
     Some [Some (JString ''warning'')]"
proof -
  have quote: "parse_json (json_text example_env quoting_result) = None"
    by (simp add: json_text_eq quoting_result_def example_env_def entry_text_def
        show_int_def show_nat_small parse_json_def
        parse_value.simps parse_members.simps parse_elements.simps
        skip_ws_def is_ws_def parse_number_def parse_unsigned_def
        parse_digits_def parse_fraction_def parse_exponent_def is_digit_def)
  have backslash: "parse_json (json_text example_env backslash_result) = None"
    by (simp add: json_text_eq backslash_result_def example_env_def entry_text_def
        show_int_def show_nat_small parse_json_def
        parse_value.simps parse_members.simps parse_elements.simps
        skip_ws_def is_ws_def parse_number_def parse_unsigned_def
        parse_digits_def parse_fraction_def parse_exponent_def is_digit_def unescape_def)
  have plain: "list_all (\<lambda>d. json_plain (file' d) \<and> json_plain (message d))
                 (diagnostics info_result)"
    by (simp add: info_result_def info_diagnostic_def json_plain_def)
  have number: "is_json_number (show_double example_env (compilationTimeMs info_result / 1000))"
    by (simp add: example_env_def is_json_number_def parse_number_def parse_unsigned_def
        parse_digits_def parse_fraction_def parse_exponent_def is_digit_def)
  have info: "Option.bind (parse_json (json_text example_env info_result)) reported_severities =
      Some [Some (JString ''warning'')]"
    using json_round_trip_plain [OF plain number, THEN conjunct2]
    by (simp add: info_result_def info_diagnostic_def)
  show ?thesis
    using quote backslash info
    by (simp add: getSeverityString_def info_diagnostic_def info_result_def count_severity_def)
qed

end
